theory Spec2Isabelle
  imports Main "HOL-Library.Signed_Division"
begin

section \<open>Bytes, errors and the reader\<close>

text \<open>
  Go's \<^verbatim>\<open>byte\<close> is an 8-bit value and a Go \<^verbatim>\<open>string\<close> is a sequence of bytes;
  HOL's \<^typ>\<open>char\<close> is an 8-bit value as well, so a \<^verbatim>\<open>[]byte\<close> and a \<^verbatim>\<open>string\<close>
  are both a \<^typ>\<open>char list\<close> and the conversion \<^verbatim>\<open>string(b)\<close> is the identity.
\<close>

type_synonym byte = char
type_synonym bytes = "char list"

text \<open>
  The error values that can leave the functions of \<^verbatim>\<open>reader/header.go\<close>.
  \<open>ErrInvalidFile\<close> (the spec's \<^verbatim>\<open>InvalidFormat\<close>) and \<open>ErrInvalidStringSep\<close>
  (\<^verbatim>\<open>InvalidSeparator\<close>) are the package's own; \<open>ErrMagicMismatch\<close> is
  \<^verbatim>\<open>zstd.ErrMagicMismatch\<close>, which the player scanner takes as the end of the player
  records (the spec's \<^verbatim>\<open>PatternNotFound\<close>); \<open>UnexpectedEOF\<close> is the failure of a
  read that finds too few bytes; \<open>EOF\<close> is \<^verbatim>\<open>io.EOF\<close>; \<open>ErrSyntax\<close> and
  \<open>ErrRange\<close> are the two failures of \<^verbatim>\<open>strconv.Atoi\<close>; \<open>ErrTimeParse\<close> is a
  failure of \<^verbatim>\<open>time.Parse\<close>; \<open>ErrCorrupt\<close> stands for any other failure of the
  underlying decompressor.
\<close>

datatype error =
    ErrInvalidFile
  | ErrInvalidStringSep
  | ErrMagicMismatch
  | UnexpectedEOF
  | EOF
  | ErrSyntax
  | ErrRange
  | ErrTimeParse
  | ErrCorrupt

text \<open>
  \<^verbatim>\<open>types.Player\<close>, \<^verbatim>\<open>types.Team\<close> and \<^verbatim>\<open>types.Header\<close>: the fields that
  \<^verbatim>\<open>readHeader\<close> and \<^verbatim>\<open>readPlayers\<close> assign. A Go \<^verbatim>\<open>int\<close> is an
  \<^typ>\<open>int\<close> here: the code does no arithmetic on these fields, and every value
  stored comes out of \<^verbatim>\<open>strconv.Atoi\<close> (which keeps it in the 64-bit range) or is
  0 or 1. The type of the time stamp is a parameter, as \<^verbatim>\<open>time.Parse\<close> is.
\<close>

record Player =
  ID :: string
  ProfileID :: string
  Username :: string
  TeamIndex :: int
  HeroName :: int
  Alliance :: int
  RoleImage :: int
  RoleName :: string
  RolePortrait :: int

record Team =
  Name :: string
  Score :: int

record 't Header =
  GameVersion :: string
  CodeVersion :: int
  Timestamp :: "'t option"
  MatchType :: int
  Map :: int
  RecordingPlayerID :: string
  RecordingProfileID :: string
  AdditionalTags :: string
  GameMode :: int
  RoundsPerMatch :: int
  RoundsPerMatchOvertime :: int
  RoundNumber :: int
  OvertimeRoundNumber :: int
  Teams :: "Team list"
  Players :: "Player list"
  GMSettings :: "int list"
  PlaylistCategory :: int
  MatchID :: string

text \<open>The zero values \<^verbatim>\<open>types.Player{}\<close>, \<^verbatim>\<open>types.Team{}\<close> and \<^verbatim>\<open>types.Header{}\<close>.\<close>

definition Player0 :: Player where
  "Player0 = \<lparr>ID = [], ProfileID = [], Username = [], TeamIndex = 0, HeroName = 0,
     Alliance = 0, RoleImage = 0, RoleName = [], RolePortrait = 0\<rparr>"

definition Team0 :: Team where
  "Team0 = \<lparr>Name = [], Score = 0\<rparr>"

definition Header0 :: "'t Header" where
  "Header0 = \<lparr>GameVersion = [], CodeVersion = 0, Timestamp = None, MatchType = 0, Map = 0,
     RecordingPlayerID = [], RecordingProfileID = [], AdditionalTags = [], GameMode = 0,
     RoundsPerMatch = 0, RoundsPerMatchOvertime = 0, RoundNumber = 0,
     OvertimeRoundNumber = 0, Teams = [Team0, Team0], Players = [], GMSettings = [],
     PlaylistCategory = 0, MatchID = []\<rparr>"

text \<open>
  The reader. \<open>compressed\<close> is what the decompressed source still holds and
  \<open>src_fail\<close> is how that source ends once these bytes are used up: \<open>None\<close> when the
  stream simply ends, \<open>Some e\<close> when the next read of the decompressor fails with
  \<open>e\<close>. \<open>offset\<close> counts the bytes consumed.
\<close>

record 't DissectReader =
  compressed :: bytes
  src_fail :: "error option"
  offset :: nat
  Header :: "'t Header"

text \<open>
  One call \<^verbatim>\<open>r.compressed.Read(b)\<close> with a one-byte buffer, as \<^verbatim>\<open>io.Reader\<close>
  specifies it: the number of bytes read, the error, the byte read (the buffer keeps its
  old content \<open>b\<close> when nothing is read) and the source after the call. At the end of
  the stream the count is 0 and the error is \<^verbatim>\<open>io.EOF\<close>, or the failure of the
  source.
\<close>

definition compressed_Read1 ::
  "byte \<Rightarrow> 't DissectReader \<Rightarrow> nat \<times> error option \<times> byte \<times> 't DissectReader" where
  "compressed_Read1 b r =
     (case compressed r of
        [] \<Rightarrow> (0, Some (case src_fail r of None \<Rightarrow> EOF | Some e \<Rightarrow> e), b, r)
      | c # cs \<Rightarrow> (1, None, c, r\<lparr>compressed := cs\<rparr>))"

text \<open>
  Modelled from the spec: \<^verbatim>\<open>Read\<close>, \<^verbatim>\<open>Seek\<close>, \<^verbatim>\<open>ReadInt\<close> and
  \<^verbatim>\<open>ReadString\<close> of the reader are not in \<^verbatim>\<open>reader/header.go\<close>. \<open>Read n\<close>
  returns exactly \<open>n\<close> bytes and advances the offset by \<open>n\<close>; it fails with
  \<open>UnexpectedEOF\<close> when fewer than \<open>n\<close> bytes remain, and with the failure of the
  source when the source fails.
\<close>

definition Read :: "nat \<Rightarrow> 't DissectReader \<Rightarrow> error + (bytes \<times> 't DissectReader)" where
  "Read n r =
     (if n \<le> length (compressed r)
      then Inr (take n (compressed r),
                r\<lparr>compressed := drop n (compressed r), offset := offset r + n\<rparr>)
      else Inl (case src_fail r of None \<Rightarrow> UnexpectedEOF | Some e \<Rightarrow> e))"

text \<open>
  Modelled from the spec: the forward search of \<^verbatim>\<open>Seek\<close>. \<open>find_after pat bs\<close>
  consumes \<open>bs\<close> byte by byte until the bytes read last equal \<open>pat\<close> and returns what
  follows the first occurrence of \<open>pat\<close>; \<open>None\<close> when \<open>bs\<close> is used up first.
\<close>

fun find_after :: "bytes \<Rightarrow> bytes \<Rightarrow> bytes option" where
  "find_after pat [] = (if pat = [] then Some [] else None)"
| "find_after pat (b # bs) =
     (if take (length pat) (b # bs) = pat then Some (drop (length pat) (b # bs))
      else find_after pat bs)"

text \<open>
  Modelled from the spec: \<open>Seek pat\<close> advances the offset by the bytes consumed,
  the match included. When the source is used up before a match it has consumed
  everything and reports the distinguished pattern-not-found signal (the value
  \<^verbatim>\<open>zstd.ErrMagicMismatch\<close> that \<^verbatim>\<open>readPlayers\<close> tests for) if the stream simply
  ended, and the failure of the source otherwise. The reader is returned in both cases:
  \<^verbatim>\<open>readPlayers\<close> ends its loop on the signal and leaves the reader as it then is.
\<close>

definition Seek :: "bytes \<Rightarrow> 't DissectReader \<Rightarrow> error option \<times> 't DissectReader" where
  "Seek pat r =
     (case find_after pat (compressed r) of
        Some rest \<Rightarrow>
          (None, r\<lparr>compressed := rest,
                   offset := offset r + (length (compressed r) - length rest)\<rparr>)
      | None \<Rightarrow>
          (Some (case src_fail r of None \<Rightarrow> ErrMagicMismatch | Some e \<Rightarrow> e),
           r\<lparr>compressed := [], offset := offset r + length (compressed r)\<rparr>))"

text \<open>
  Modelled from the spec: \<open>ReadInt\<close> decodes four bytes as a little-endian signed
  32-bit integer: the unsigned value of the four bytes, less \<open>2 ^ 32\<close> when the sign
  bit is set.
\<close>

definition le_int32 :: "bytes \<Rightarrow> int" where
  "le_int32 bs =
     (let v = foldr (\<lambda>b n. int (of_char b) + 256 * n) bs 0
      in if v \<ge> 2147483648 then v - 4294967296 else v)"

definition ReadInt :: "'t DissectReader \<Rightarrow> error + (int \<times> 't DissectReader)" where
  "ReadInt r =
     (case Read 4 r of
        Inl e \<Rightarrow> Inl e
      | Inr (b, r1) \<Rightarrow> Inr (le_int32 b, r1))"

text \<open>
  Modelled from the spec: \<open>ReadString\<close> (the body variant) reads one length byte and
  then that many bytes, with no separator.
\<close>

definition ReadString :: "'t DissectReader \<Rightarrow> error + (string \<times> 't DissectReader)" where
  "ReadString r =
     (case Read 1 r of
        Inl e \<Rightarrow> Inl e
      | Inr (b, r1) \<Rightarrow>
          (case Read (of_char (hd b)) r1 of
             Inl e \<Rightarrow> Inl e
           | Inr (s, r2) \<Rightarrow> Inr (s, r2)))"

section \<open>readHeaderMagic\<close>

text \<open>
  The loop \<^verbatim>\<open>for t != 2\<close> of \<^verbatim>\<open>readHeaderMagic\<close>, with its variables \<open>b\<close> (the
  one-byte buffer), \<open>n\<close> (zero bytes counted) and \<open>t\<close> (sequences completed). Every
  iteration that goes on has taken one byte from the source.
\<close>

function magic_scan ::
  "byte \<Rightarrow> nat \<Rightarrow> nat \<Rightarrow> 't DissectReader \<Rightarrow> error + 't DissectReader" where
  "magic_scan b n t r =
     (if t \<noteq> 2 then
        (case compressed_Read1 b r of (len, err, b', r1) \<Rightarrow>
           let r2 = r1\<lparr>offset := offset r1 + len\<rparr> in
           (case err of
              Some e \<Rightarrow> Inl e
            | None \<Rightarrow>
                if len \<noteq> 1 then Inl ErrInvalidFile
                else if b' = CHR 0x00 then
                  (if n \<noteq> 6 then magic_scan b' (n + 1) t r2
                   else magic_scan b' 0 (t + 1) r2)
                else if n > 0 then magic_scan b' 0 t r2
                else magic_scan b' n t r2))
      else Inr r)"
  by pat_completeness auto
termination
  by (relation "measure (\<lambda>(b, n, t, r). length (compressed r))")
     (auto simp: compressed_Read1_def split: list.splits)

definition readHeaderMagic :: "'t DissectReader \<Rightarrow> error + 't DissectReader" where
  "readHeaderMagic r =
     (case Read 7 r of
        Inl e \<Rightarrow> Inl e
      | Inr (b, r1) \<Rightarrow>
          if take 7 b \<noteq> ''dissect'' then Inl ErrInvalidFile
          else magic_scan (CHR 0x00) 0 0 r1)"

section \<open>strconv.Atoi\<close>

text \<open>
  \<^verbatim>\<open>strconv.Atoi\<close> of the Go library, for a 64-bit \<^verbatim>\<open>int\<close>: an optional sign
  followed by at least one decimal digit and nothing else. It returns a value and an
  error: 0 with \<open>ErrSyntax\<close> when the text is not of that form, and the nearest bound
  of the 64-bit range with \<open>ErrRange\<close> when the number does not fit.
\<close>

definition is_digit :: "char \<Rightarrow> bool" where
  "is_digit c = (48 \<le> (of_char c :: nat) \<and> (of_char c :: nat) \<le> 57)"

definition dec_value :: "string \<Rightarrow> int" where
  "dec_value ds = foldl (\<lambda>n c. n * 10 + (int (of_char c) - 48)) 0 ds"

definition Atoi :: "string \<Rightarrow> int \<times> error option" where
  "Atoi s =
     (let neg = (s \<noteq> [] \<and> hd s = CHR ''-'');
          ds = (if s \<noteq> [] \<and> (hd s = CHR ''-'' \<or> hd s = CHR ''+'') then tl s else s)
      in if ds = [] \<or> \<not> list_all is_digit ds then (0, Some ErrSyntax)
         else let v = (if neg then - dec_value ds else dec_value ds)
              in if v > 9223372036854775807 then (9223372036854775807, Some ErrRange)
                 else if v < - 9223372036854775808 then (- 9223372036854775808, Some ErrRange)
                 else (v, None))"

section \<open>readHeaderString\<close>

text \<open>
  Modelled from the spec: the constant \<^verbatim>\<open>strSep\<close> is declared outside
  \<^verbatim>\<open>reader/header.go\<close>; the spec says that it is a fixed separator of 7 bytes. The
  length byte and the separator together are the 8 bytes of a little-endian length below
  256, so the separator is seven zero bytes.
\<close>

definition strSep :: bytes where
  "strSep = replicate 7 (CHR 0x00)"

definition readHeaderString :: "'t DissectReader \<Rightarrow> error + (string \<times> 't DissectReader)" where
  "readHeaderString r =
     (case Read 1 r of
        Inl e \<Rightarrow> Inl e
      | Inr (b, r1) \<Rightarrow>
          let len = (of_char (hd b) :: nat) in
          (case Read 7 r1 of
             Inl e \<Rightarrow> Inl e
           | Inr (b, r2) \<Rightarrow>
               if b \<noteq> strSep then Inl ErrInvalidStringSep
               else (case Read len r2 of
                       Inl e \<Rightarrow> Inl e
                     | Inr (b, r3) \<Rightarrow> Inr (b, r3))))"

section \<open>readHeader: the property loop\<close>

text \<open>The variables of the loop of \<^verbatim>\<open>readHeader\<close>.\<close>

record loop_state =
  props :: "string \<rightharpoonup> string"
  gmSettings :: "int list"
  players :: "Player list"
  currentPlayer :: Player
  playerData :: bool

definition loop_init :: loop_state where
  "loop_init = \<lparr>props = Map.empty, gmSettings = [], players = [],
     currentPlayer = Player0, playerData = False\<rparr>"

text \<open>Reading a Go map at a key that may be missing gives the empty string.\<close>

definition lookup :: "(string \<rightharpoonup> string) \<Rightarrow> string \<Rightarrow> string" where
  "lookup ps k = (case ps k of None \<Rightarrow> [] | Some v \<Rightarrow> v)"

text \<open>
  The body of the loop after the two strings are read, in the order of the code: the
  block for \<^verbatim>\<open>k == "playerid"\<close>, the block for \<^verbatim>\<open>"playlistcategory"\<close> or
  \<^verbatim>\<open>"id"\<close> with \<^verbatim>\<open>playerData\<close>, then the \<^verbatim>\<open>if !playerData\<close> statement.
\<close>

definition on_playerid :: "string \<Rightarrow> loop_state \<Rightarrow> loop_state" where
  "on_playerid k st =
     (if k = ''playerid'' then
        (let st1 = (if playerData st
                    then st\<lparr>players := players st @ [currentPlayer st]\<rparr> else st)
         in st1\<lparr>playerData := True, currentPlayer := Player0\<rparr>)
      else st)"

definition on_terminator :: "string \<Rightarrow> loop_state \<Rightarrow> loop_state" where
  "on_terminator k st =
     (if (k = ''playlistcategory'' \<or> k = ''id'') \<and> playerData st
      then st\<lparr>players := players st @ [currentPlayer st], playerData := False\<rparr>
      else st)"

definition set_int ::
  "string \<Rightarrow> (int \<Rightarrow> Player \<Rightarrow> Player) \<Rightarrow> loop_state \<Rightarrow> error + loop_state" where
  "set_int v upd st =
     (case Atoi v of
        (n, Some e) \<Rightarrow> Inl e
      | (n, None) \<Rightarrow> Inr (st\<lparr>currentPlayer := upd n (currentPlayer st)\<rparr>))"

definition record_pair :: "string \<Rightarrow> string \<Rightarrow> loop_state \<Rightarrow> error + loop_state" where
  "record_pair k v st =
     (if \<not> playerData st then
        (if k \<noteq> ''gmsetting'' then Inr (st\<lparr>props := (props st)(k \<mapsto> v)\<rparr>)
         else (case Atoi v of
                 (n, Some e) \<Rightarrow> Inl e
               | (n, None) \<Rightarrow> Inr (st\<lparr>gmSettings := gmSettings st @ [n]\<rparr>)))
      else if k = ''playerid'' then Inr (st\<lparr>currentPlayer := (currentPlayer st)\<lparr>ID := v\<rparr>\<rparr>)
      else if k = ''playername'' then
        Inr (st\<lparr>currentPlayer := (currentPlayer st)\<lparr>Username := v\<rparr>\<rparr>)
      else if k = ''team'' then set_int v (\<lambda>n p. p\<lparr>TeamIndex := n\<rparr>) st
      else if k = ''heroname'' then set_int v (\<lambda>n p. p\<lparr>HeroName := n\<rparr>) st
      else if k = ''alliance'' then set_int v (\<lambda>n p. p\<lparr>Alliance := n\<rparr>) st
      else if k = ''roleimage'' then set_int v (\<lambda>n p. p\<lparr>RoleImage := n\<rparr>) st
      else if k = ''rolename'' then
        Inr (st\<lparr>currentPlayer := (currentPlayer st)\<lparr>RoleName := v\<rparr>\<rparr>)
      else if k = ''roleportrait'' then set_int v (\<lambda>n p. p\<lparr>RolePortrait := n\<rparr>) st
      else Inr st)"

definition header_step :: "string \<Rightarrow> string \<Rightarrow> loop_state \<Rightarrow> error + loop_state" where
  "header_step k v st = record_pair k v (on_terminator k (on_playerid k st))"

lemma Read_shrinks:
  "Read n r = Inr (b, r') \<Longrightarrow> length (compressed r') + n = length (compressed r)"
  by (auto simp: Read_def split: if_splits)

lemma readHeaderString_shrinks:
  "readHeaderString r = Inr (s, r') \<Longrightarrow> length (compressed r') < length (compressed r)"
  by (auto simp: readHeaderString_def Let_def split: sum.splits if_splits
           dest!: Read_shrinks)

text \<open>
  The loop \<^verbatim>\<open>for lastProp := false; !lastProp;\<close>: the test
  \<^verbatim>\<open>_, lastProp = props["teamscore1"]\<close> is the last statement of the body.
\<close>

function readHeader_loop ::
  "loop_state \<Rightarrow> 't DissectReader \<Rightarrow> error + (loop_state \<times> 't DissectReader)" where
  "readHeader_loop st r =
     (case readHeaderString r of
        Inl e \<Rightarrow> Inl e
      | Inr (k, r1) \<Rightarrow>
          (case readHeaderString r1 of
             Inl e \<Rightarrow> Inl e
           | Inr (v, r2) \<Rightarrow>
               (case header_step k v st of
                  Inl e \<Rightarrow> Inl e
                | Inr st' \<Rightarrow>
                    if props st' ''teamscore1'' \<noteq> None then Inr (st', r2)
                    else readHeader_loop st' r2)))"
  by pat_completeness auto
termination
proof (relation "measure (\<lambda>(st, r). length (compressed r))", goal_cases)
  case 1
  show ?case by simp
next
  case (2 st r x k r1 y v r2 st')
  then show ?case
    using readHeaderString_shrinks [of r k r1] readHeaderString_shrinks [of r1 v r2]
    by simp
qed

section \<open>readHeader: the assembly of the header\<close>

text \<open>
  The statements of \<^verbatim>\<open>readHeader\<close> after the loop. \<open>tparse\<close> stands for
  \<^verbatim>\<open>time.Parse("2006-01-02-15-04-05", _)\<close> of the Go library. Every
  \<^verbatim>\<open>return h, err\<close> is an \<open>Inl\<close>. The value that \<^verbatim>\<open>strconv.Atoi\<close>
  returns for \<^verbatim>\<open>"playlistcategory"\<close> is stored whether or not it comes with an error.
\<close>

definition assemble_header ::
  "(string \<Rightarrow> error + 't) \<Rightarrow> loop_state \<Rightarrow> error + 't Header" where
  "assemble_header tparse st =
     (let ps = props st;
          h = Header0\<lparr>Teams := [Team0, Team0], Players := players st,
                      GMSettings := gmSettings st\<rparr>;
          h = h\<lparr>GameVersion := lookup ps ''version''\<rparr>
      in (case Atoi (lookup ps ''code'') of (n, Some e) \<Rightarrow> Inl e | (n, None) \<Rightarrow>
         (let h = h\<lparr>CodeVersion := n\<rparr>
      in (case tparse (lookup ps ''datetime'') of Inl e \<Rightarrow> Inl e | Inr t \<Rightarrow>
         (let h = h\<lparr>Timestamp := Some t\<rparr>
      in (case Atoi (lookup ps ''matchtype'') of (n, Some e) \<Rightarrow> Inl e | (n, None) \<Rightarrow>
         (let h = h\<lparr>MatchType := n\<rparr>
      in (case Atoi (lookup ps ''worldid'') of (n, Some e) \<Rightarrow> Inl e | (n, None) \<Rightarrow>
         (let h = h\<lparr>Map := n\<rparr>;
              h = h\<lparr>RecordingPlayerID := lookup ps ''recordingplayerid''\<rparr>;
              h = h\<lparr>RecordingProfileID := lookup ps ''recordingprofileid''\<rparr>;
              h = h\<lparr>AdditionalTags := lookup ps ''additionaltags''\<rparr>
      in (case Atoi (lookup ps ''gamemodeid'') of (n, Some e) \<Rightarrow> Inl e | (n, None) \<Rightarrow>
         (let h = h\<lparr>GameMode := n\<rparr>
      in (case Atoi (lookup ps ''roundspermatch'') of (n, Some e) \<Rightarrow> Inl e | (n, None) \<Rightarrow>
         (let h = h\<lparr>RoundsPerMatch := n\<rparr>
      in (case Atoi (lookup ps ''roundspermatchovertime'') of
            (n, Some e) \<Rightarrow> Inl e | (n, None) \<Rightarrow>
         (let h = h\<lparr>RoundsPerMatchOvertime := n\<rparr>
      in (case Atoi (lookup ps ''roundnumber'') of (n, Some e) \<Rightarrow> Inl e | (n, None) \<Rightarrow>
         (let h = h\<lparr>RoundNumber := n\<rparr>
      in (case Atoi (lookup ps ''overtimeroundnumber'') of
            (n, Some e) \<Rightarrow> Inl e | (n, None) \<Rightarrow>
         (let h = h\<lparr>OvertimeRoundNumber := n\<rparr>;
              h = h\<lparr>Teams := (Teams h)[0 := (Teams h ! 0)\<lparr>Name := lookup ps ''teamname0''\<rparr>]\<rparr>;
              h = h\<lparr>Teams := (Teams h)[1 := (Teams h ! 1)\<lparr>Name := lookup ps ''teamname1''\<rparr>]\<rparr>
      in (case Atoi (lookup ps ''playlistcategory'') of (n, err) \<Rightarrow>
         (let h = h\<lparr>PlaylistCategory := n\<rparr>;
              h = h\<lparr>MatchID := lookup ps ''id''\<rparr>
      in (case Atoi (lookup ps ''teamscore0'') of (n, Some e) \<Rightarrow> Inl e | (n, None) \<Rightarrow>
         (let h = h\<lparr>Teams := (Teams h)[0 := (Teams h ! 0)\<lparr>Score := n\<rparr>]\<rparr>
      in (case Atoi (lookup ps ''teamscore1'') of (n, Some e) \<Rightarrow> Inl e | (n, None) \<Rightarrow>
         (let h = h\<lparr>Teams := (Teams h)[1 := (Teams h ! 1)\<lparr>Score := n\<rparr>]\<rparr>
      in Inr h)))))))))))))))))))))))))"

definition readHeader ::
  "(string \<Rightarrow> error + 't) \<Rightarrow> 't DissectReader \<Rightarrow> error + ('t Header \<times> 't DissectReader)" where
  "readHeader tparse r =
     (case readHeader_loop loop_init r of
        Inl e \<Rightarrow> Inl e
      | Inr (st, r1) \<Rightarrow>
          (case assemble_header tparse st of
             Inl e \<Rightarrow> Inl e
           | Inr h \<Rightarrow> Inr (h, r1)))"

section \<open>readPlayers\<close>

definition indicator :: bytes where
  "indicator = [CHR 0x22, CHR 0x95, CHR 0x1C, CHR 0x16, CHR 0x50, CHR 0x08]"

definition profileIDIndicator :: bytes where
  "profileIDIndicator = [CHR 0x8A, CHR 0x50, CHR 0x9B, CHR 0xD0]"

definition unknownIndicator :: bytes where
  "unknownIndicator = [CHR 0x22, CHR 0xEE, CHR 0xD4, CHR 0x45, CHR 0xC8, CHR 0x08]"

text \<open>
  The loop \<^verbatim>\<open>for i, player := range r.Header.Players\<close>: the first player with the
  scanned username gets the scanned profile id and team index, and the loop breaks. The
  result is \<^verbatim>\<open>found\<close> and the list.
\<close>

fun enrich :: "string \<Rightarrow> string \<Rightarrow> int \<Rightarrow> Player list \<Rightarrow> bool \<times> Player list" where
  "enrich username profileID teamIndex [] = (False, [])"
| "enrich username profileID teamIndex (p # ps) =
     (if Username p = username
      then (True, p\<lparr>ProfileID := profileID, TeamIndex := teamIndex\<rparr> # ps)
      else (case enrich username profileID teamIndex ps of
              (found, ps') \<Rightarrow> (found, p # ps')))"

definition reconcile :: "string \<Rightarrow> string \<Rightarrow> int \<Rightarrow> Player list \<Rightarrow> Player list" where
  "reconcile username profileID teamIndex ps =
     (let player = Player0\<lparr>ProfileID := profileID, Username := username,
                           TeamIndex := teamIndex\<rparr>
      in case enrich username profileID teamIndex ps of
           (found, ps') \<Rightarrow> if \<not> found then ps' @ [player] else ps')"

text \<open>
  One iteration of the loop of \<^verbatim>\<open>readPlayers\<close> after the seek for \<open>indicator\<close> has
  succeeded: the result is the pair handed to \<^verbatim>\<open>unknownComparison.Push\<close> and the
  reader, or the error of the \<^verbatim>\<open>return err\<close> taken. Go's \<^verbatim>\<open>%\<close> truncates
  (\<open>smod\<close>).
\<close>

definition scan_player ::
  "'t DissectReader \<Rightarrow> error + ((string \<times> bytes) \<times> 't DissectReader)" where
  "scan_player r1 =
     (case ReadInt r1 of Inl e \<Rightarrow> Inl e | Inr (teamIndicator, r2) \<Rightarrow>
     (let teamIndex = (if teamIndicator smod 2 = 0 then 1 else 0) in
     (case Read 12 r2 of Inl e \<Rightarrow> Inl e | Inr (skipped, r3) \<Rightarrow>
     (case ReadString r3 of Inl e \<Rightarrow> Inl e | Inr (username, r4) \<Rightarrow>
     (case Seek profileIDIndicator r4 of (Some e, r5) \<Rightarrow> Inl e | (None, r5) \<Rightarrow>
     (case ReadString r5 of Inl e \<Rightarrow> Inl e | Inr (profileID, r6) \<Rightarrow>
     (let r7 = r6\<lparr>Header := (Header r6)
                 \<lparr>Players := reconcile username profileID teamIndex (Players (Header r6))\<rparr>\<rparr> in
     (case Seek unknownIndicator r7 of (Some e, r8) \<Rightarrow> Inl e | (None, r8) \<Rightarrow>
     (case Read 30 r8 of Inl e \<Rightarrow> Inl e | Inr (unknown, r9) \<Rightarrow>
        Inr ((username, unknown), r9))))))))))"

text \<open>
  The loop \<^verbatim>\<open>for i := 0; i < 10; i++\<close>. \<open>uc\<close> is \<^verbatim>\<open>unknownComparison\<close>, the
  pairs pushed so far; \<^verbatim>\<open>unknownComparison.Flush()\<close> after the loop only reports
  them and changes neither the reader nor the result.
\<close>

function readPlayers_loop ::
  "nat \<Rightarrow> (string \<times> bytes) list \<Rightarrow> 't DissectReader \<Rightarrow>
   error + ((string \<times> bytes) list \<times> 't DissectReader)" where
  "readPlayers_loop i uc r =
     (if i < 10 then
        (case Seek indicator r of
           (Some e, r1) \<Rightarrow> if e \<noteq> ErrMagicMismatch then Inl e else Inr (uc, r1)
         | (None, r1) \<Rightarrow>
             (case scan_player r1 of
                Inl e \<Rightarrow> Inl e
              | Inr (pushed, r9) \<Rightarrow> readPlayers_loop (i + 1) (uc @ [pushed]) r9))
      else Inr (uc, r))"
  by pat_completeness auto
termination
  by (relation "measure (\<lambda>(i, uc, r). 10 - i)") auto

definition readPlayers :: "'t DissectReader \<Rightarrow> error + 't DissectReader" where
  "readPlayers r =
     (case readPlayers_loop 0 [] r of
        Inl e \<Rightarrow> Inl e
      | Inr (uc, r1) \<Rightarrow> Inr r1)"

section \<open>decode\<close>

text \<open>
  Modelled from the spec: the entry point that calls the three functions is not in
  \<^verbatim>\<open>reader/header.go\<close>. By the spec's control flow the header decoder (magic, then
  properties) produces the header with the players of the property stream, the player
  scanner then extends that list in place, and the caller receives the header.
\<close>

definition decode ::
  "(string \<Rightarrow> error + 't) \<Rightarrow> 't DissectReader \<Rightarrow> error + 't Header" where
  "decode tparse r =
     (case readHeaderMagic r of
        Inl e \<Rightarrow> Inl e
      | Inr r1 \<Rightarrow>
          (case readHeader tparse r1 of
             Inl e \<Rightarrow> Inl e
           | Inr (h, r2) \<Rightarrow>
               (case readPlayers (r2\<lparr>Header := h\<rparr>) of
                  Inl e \<Rightarrow> Inl e
                | Inr r3 \<Rightarrow> Inr (Header r3))))"

section \<open>Property streams\<close>

text \<open>
  The body of the loop of \<^verbatim>\<open>readHeader\<close> applied to a sequence of key/value pairs,
  one after the other, stopping at the first error.
\<close>

fun run_pairs :: "(string \<times> string) list \<Rightarrow> loop_state \<Rightarrow> error + loop_state" where
  "run_pairs [] st = Inr st"
| "run_pairs ((k, v) # kvs) st =
     (case header_step k v st of Inl e \<Rightarrow> Inl e | Inr st' \<Rightarrow> run_pairs kvs st')"

text \<open>
  The bytes that \<^verbatim>\<open>readHeaderString\<close> reads as the string \<open>s\<close> (for a string of
  fewer than 256 bytes), and the bytes of a sequence of key/value pairs.
\<close>

definition hdr_string :: "string \<Rightarrow> bytes" where
  "hdr_string s = char_of (length s) # strSep @ s"

fun encode_pairs :: "(string \<times> string) list \<Rightarrow> bytes" where
  "encode_pairs [] = []"
| "encode_pairs ((k, v) # kvs) = hdr_string k @ hdr_string v @ encode_pairs kvs"

section \<open>Player records in the stream\<close>

text \<open>
  The bytes that \<open>ReadString\<close> reads as the string \<open>s\<close>, and the bytes of one player
  record as \<^verbatim>\<open>readPlayers\<close> scans it: the team marker, the four bytes \<open>ti\<close> of
  the team indicator, twelve bytes, the username, the profile-id marker, the profile id,
  the third marker and thirty bytes.
\<close>

definition body_string :: "string \<Rightarrow> bytes" where
  "body_string s = char_of (length s) # s"

definition player_record :: "bytes \<Rightarrow> string \<Rightarrow> string \<Rightarrow> bytes" where
  "player_record ti u pid =
     indicator @ ti @ replicate 12 (CHR 0x00) @ body_string u @
     profileIDIndicator @ body_string pid @ unknownIndicator @ replicate 30 (CHR 0x00)"

text \<open>
  The variables \<^verbatim>\<open>unknownComparison\<close> and \<^verbatim>\<open>r\<close> of \<^verbatim>\<open>readPlayers\<close> after
  \<open>k\<close> complete iterations of its loop; \<open>None\<close> when one of them does not complete.
\<close>

fun after_records ::
  "nat \<Rightarrow> (string \<times> bytes) list \<times> 't DissectReader \<Rightarrow>
   ((string \<times> bytes) list \<times> 't DissectReader) option" where
  "after_records 0 s = Some s"
| "after_records (Suc k) (uc, r) =
     (case Seek indicator r of
        (Some e, r1) \<Rightarrow> None
      | (None, r1) \<Rightarrow>
          (case scan_player r1 of
             Inl e \<Rightarrow> None
           | Inr (pushed, r9) \<Rightarrow> after_records k (uc @ [pushed], r9)))"

section \<open>Runs of zero bytes\<close>

text \<open>
  Seven zero bytes, and, following the words of the spec, the lengths of the maximal runs
  of zero bytes of a byte sequence, in their order (\<open>runs_from n\<close> when \<open>n\<close> zero bytes
  precede the sequence).
\<close>

definition zeros7 :: bytes where
  "zeros7 = replicate 7 (CHR 0x00)"

fun runs_from :: "nat \<Rightarrow> bytes \<Rightarrow> nat list" where
  "runs_from n [] = (if n > 0 then [n] else [])"
| "runs_from n (b # bs) =
     (if b = CHR 0x00 then runs_from (Suc n) bs
      else if n > 0 then n # runs_from 0 bs else runs_from 0 bs)"

definition zero_runs :: "bytes \<Rightarrow> nat list" where
  "zero_runs bs = runs_from 0 bs"

section \<open>Example inputs\<close>

definition reader_on :: "bytes \<Rightarrow> error option \<Rightarrow> nat list DissectReader" where
  "reader_on bs ending = \<lparr>compressed = bs, src_fail = ending, offset = 0, Header = Header0\<rparr>"

definition le4 :: bytes where
  "le4 = [CHR 0x04, CHR 0x00, CHR 0x00, CHR 0x00]"

definition bob_record :: bytes where
  "bob_record = player_record le4 ''bob'' ''p-1''"

text \<open>
  A stand-in for \<^verbatim>\<open>time.Parse("2006-01-02-15-04-05", _)\<close> in the examples: it accepts
  the texts of exactly this fixed-width form with a month from 1 to 12, a day from 1 to
  28, an hour below 24 and minutes and seconds below 60, all of which the Go function
  accepts, and returns the six numbers.
\<close>

definition fixed_layout_time :: "string \<Rightarrow> error + nat list" where
  "fixed_layout_time s =
     (let fs = [take 4 s, take 2 (drop 5 s), take 2 (drop 8 s), take 2 (drop 11 s),
                take 2 (drop 14 s), take 2 (drop 17 s)];
          ns = map (nat \<circ> dec_value) fs
      in if length s = 19 \<and> list_all (\<lambda>i. s ! i = CHR ''-'') [4, 7, 10, 13, 16] \<and>
            list_all (list_all is_digit) fs \<and>
            1 \<le> ns ! 1 \<and> ns ! 1 \<le> 12 \<and> 1 \<le> ns ! 2 \<and> ns ! 2 \<le> 28 \<and>
            ns ! 3 < 24 \<and> ns ! 4 < 60 \<and> ns ! 5 < 60
         then Inr ns else Inl ErrTimeParse)"

definition base_props :: "(string \<times> string) list" where
  "base_props =
     [(''version'', ''Y8S1''), (''code'', ''7''), (''datetime'', ''2023-01-15-12-30-45''),
      (''matchtype'', ''2''), (''worldid'', ''5''), (''gamemodeid'', ''1''),
      (''roundspermatch'', ''6''), (''roundspermatchovertime'', ''3''),
      (''roundnumber'', ''0''), (''overtimeroundnumber'', ''0'')]"

text \<open>
  Whole inputs of \<open>decode\<close>: the magic, a version block with the two sequences of seven
  zero bytes, the properties and one player record. The first has two player records of
  the name \<^verbatim>\<open>bob\<close> in its header, the second a player whose \<^verbatim>\<open>team\<close> is 5. Then a
  reader after a header with two players, in front of two player records, and the
  reader that \<^verbatim>\<open>readPlayers\<close> leaves from it.
\<close>

definition magic_block :: bytes where
  "magic_block = ''dissect'' @ ''v2'' @ replicate 7 (CHR 0x00) @ ''x'' @ replicate 7 (CHR 0x00)"

definition two_bobs_input :: "nat list DissectReader" where
  "two_bobs_input =
     reader_on (magic_block @
       encode_pairs (base_props @
         [(''playerid'', ''a''), (''playername'', ''bob''), (''team'', ''0''),
          (''playerid'', ''b''), (''playername'', ''bob''), (''team'', ''1''),
          (''id'', ''m''), (''teamscore0'', ''3''), (''teamscore1'', ''1'')]) @
       player_record le4 ''bob'' ''p-1'') None"

definition team_five_input :: "nat list DissectReader" where
  "team_five_input =
     reader_on (magic_block @
       encode_pairs (base_props @
         [(''playerid'', ''a''), (''playername'', ''bob''), (''team'', ''5''),
          (''id'', ''m''), (''teamscore0'', ''3''), (''teamscore1'', ''1'')]) @
       player_record le4 ''amy'' ''p-2'') None"

definition one_bob_reader :: "nat list DissectReader" where
  "one_bob_reader =
     (reader_on (bob_record @ player_record le4 ''amy'' ''p-2'') None)
       \<lparr>Header := Header0\<lparr>Players := [Player0\<lparr>ID := ''a'', Username := ''bob'', TeamIndex := 7\<rparr>,
                                      Player0\<lparr>ID := ''c'', Username := ''cy'', TeamIndex := 7\<rparr>]\<rparr>\<rparr>"

definition scanned_reader :: "nat list DissectReader" where
  "scanned_reader =
     (reader_on [] None)
       \<lparr>offset := 140,
        Header := Header0\<lparr>Players :=
          [Player0\<lparr>ID := ''a'', ProfileID := ''p-1'', Username := ''bob'', TeamIndex := 1\<rparr>,
           Player0\<lparr>ID := ''c'', Username := ''cy'', TeamIndex := 7\<rparr>,
           Player0\<lparr>ProfileID := ''p-2'', Username := ''amy'', TeamIndex := 1\<rparr>]\<rparr>\<rparr>"

declare readHeader_loop.simps [simp del]
declare magic_scan.simps [simp del]
declare readPlayers_loop.simps [simp del]

section \<open>readHeaderMagic: the scan for the zero bytes\<close>

lemma length_zeros7: "length zeros7 = 7"
  by (simp add: zeros7_def)

lemma find_after_short: "length xs < length pat \<Longrightarrow> find_after pat xs = None"
  by (induction xs) auto

lemma find_after_length:
  "find_after pat xs = Some rest \<Longrightarrow> length rest + length pat \<le> length xs"
proof (induction xs)
  case Nil
  then show ?case by (simp split: if_splits)
next
  case (Cons a xs)
  show ?case
  proof (cases "take (length pat) (a # xs) = pat")
    case True
    from arg_cong [OF True, of length] have "length pat \<le> length (a # xs)" by simp
    with Cons.prems True show ?thesis by auto
  next
    case False
    with Cons show ?thesis by auto
  qed
qed

lemma take7_nonzero:
  assumes "c \<noteq> CHR 0x00" and "n \<le> 6"
  shows "take 7 (replicate n (CHR 0x00) @ c # cs) \<noteq> zeros7"
proof
  assume "take 7 (replicate n (CHR 0x00) @ c # cs) = zeros7"
  moreover from assms(2) have "c \<in> set (take 7 (replicate n (CHR 0x00) @ c # cs))"
    by (simp add: take_Cons')
  ultimately have "c \<in> set zeros7" by simp
  with assms(1) show False by (simp add: zeros7_def)
qed

lemma find_after_skip:
  "c \<noteq> CHR 0x00 \<Longrightarrow> n \<le> 6 \<Longrightarrow>
   find_after zeros7 (replicate n (CHR 0x00) @ c # cs) = find_after zeros7 cs"
proof (induction n)
  case 0
  with take7_nonzero [of c 0 cs] show ?case by (simp add: zeros7_def)
next
  case (Suc n)
  with take7_nonzero [of c "Suc n" cs] show ?case by (simp add: zeros7_def)
qed

lemma find_after_seventh:
  "find_after zeros7 (replicate 6 (CHR 0x00) @ CHR 0x00 # cs) = Some cs"
  by (simp add: zeros7_def numeral_eq_Suc)

lemma magic_scan_run:
  "n \<le> 6 \<Longrightarrow> t \<noteq> 2 \<Longrightarrow> compressed r = bs \<Longrightarrow>
   magic_scan b n t r =
     (case find_after zeros7 (replicate n (CHR 0x00) @ bs) of
        None \<Rightarrow> Inl (case src_fail r of None \<Rightarrow> EOF | Some e \<Rightarrow> e)
      | Some rest \<Rightarrow>
          magic_scan (CHR 0x00) 0 (t + 1)
            (r\<lparr>compressed := rest, offset := offset r + (length bs - length rest)\<rparr>))"
proof (induction bs arbitrary: b n r)
  case Nil
  then show ?case
    by (subst magic_scan.simps)
       (simp add: compressed_Read1_def find_after_short zeros7_def)
next
  case (Cons c cs)
  let ?r2 = "r\<lparr>compressed := cs, offset := offset r + 1\<rparr>"
  have rd: "compressed_Read1 b r = (1, None, c, r\<lparr>compressed := cs\<rparr>)"
    using Cons.prems(3) by (simp add: compressed_Read1_def)
  have c2: "compressed ?r2 = cs" by simp
  show ?case
  proof (cases "c = CHR 0x00")
    case False
    have "magic_scan b n t r = magic_scan c 0 t ?r2"
      using Cons.prems(2) False rd by (subst magic_scan.simps) (simp add: Let_def)
    also have "\<dots> = (case find_after zeros7 cs of
        None \<Rightarrow> Inl (case src_fail r of None \<Rightarrow> EOF | Some e \<Rightarrow> e)
      | Some rest \<Rightarrow>
          magic_scan (CHR 0x00) 0 (t + 1)
            (?r2\<lparr>compressed := rest, offset := offset ?r2 + (length cs - length rest)\<rparr>))"
      using Cons.IH [of 0 ?r2 c, OF _ Cons.prems(2) c2] by (simp cong: option.case_cong)
    finally have eq: "magic_scan b n t r = (case find_after zeros7 cs of
        None \<Rightarrow> Inl (case src_fail r of None \<Rightarrow> EOF | Some e \<Rightarrow> e)
      | Some rest \<Rightarrow>
          magic_scan (CHR 0x00) 0 (t + 1)
            (?r2\<lparr>compressed := rest, offset := offset ?r2 + (length cs - length rest)\<rparr>))" .
    show ?thesis
    proof (cases "find_after zeros7 cs")
      case None
      with eq False Cons.prems(1) show ?thesis by (simp add: find_after_skip)
    next
      case (Some rest)
      from find_after_length [OF Some] have "length rest \<le> length cs"
        by (simp add: length_zeros7)
      then have req: "?r2\<lparr>compressed := rest, offset := offset ?r2 + (length cs - length rest)\<rparr> =
          r\<lparr>compressed := rest, offset := offset r + (length (c # cs) - length rest)\<rparr>"
        by (simp add: Suc_diff_le)
      from eq Some have "magic_scan b n t r = magic_scan (CHR 0x00) 0 (t + 1)
          (r\<lparr>compressed := rest, offset := offset r + (length (c # cs) - length rest)\<rparr>)"
        by (simp only: option.case req)
      moreover from False Cons.prems(1) Some
      have "find_after zeros7 (replicate n (CHR 0x00) @ c # cs) = Some rest"
        by (simp add: find_after_skip)
      ultimately show ?thesis by (simp only: option.case)
    qed
  next
    case True
    show ?thesis
    proof (cases "n = 6")
      case True
      have "magic_scan b n t r = magic_scan c 0 (t + 1) ?r2"
        using Cons.prems(2) \<open>c = CHR 0x00\<close> True rd
        by (subst magic_scan.simps) (simp add: Let_def)
      with True \<open>c = CHR 0x00\<close> show ?thesis
        by (simp add: find_after_seventh)
    next
      case False
      with Cons.prems(1) have n5: "Suc n \<le> 6" by simp
      have "magic_scan b n t r = magic_scan c (n + 1) t ?r2"
        using Cons.prems(2) True False rd by (subst magic_scan.simps) (simp add: Let_def)
      also have "\<dots> = (case find_after zeros7 (replicate (Suc n) (CHR 0x00) @ cs) of
          None \<Rightarrow> Inl (case src_fail r of None \<Rightarrow> EOF | Some e \<Rightarrow> e)
        | Some rest \<Rightarrow>
            magic_scan (CHR 0x00) 0 (t + 1)
              (?r2\<lparr>compressed := rest, offset := offset ?r2 + (length cs - length rest)\<rparr>))"
        using Cons.IH [of "Suc n" ?r2 c, OF n5 Cons.prems(2) c2]
        by (simp cong: option.case_cong)
      finally have eq: "magic_scan b n t r =
          (case find_after zeros7 (replicate (Suc n) (CHR 0x00) @ cs) of
             None \<Rightarrow> Inl (case src_fail r of None \<Rightarrow> EOF | Some e \<Rightarrow> e)
           | Some rest \<Rightarrow>
               magic_scan (CHR 0x00) 0 (t + 1)
                 (?r2\<lparr>compressed := rest,
                      offset := offset ?r2 + (length cs - length rest)\<rparr>))" .
      show ?thesis
      proof (cases "find_after zeros7 (replicate (Suc n) (CHR 0x00) @ cs)")
        case None
        with eq True show ?thesis by (simp add: replicate_app_Cons_same)
      next
        case (Some rest)
        from find_after_length [OF Some] n5 have "length rest \<le> length cs"
          by (simp add: length_zeros7)
        then have req: "?r2\<lparr>compressed := rest, offset := offset ?r2 + (length cs - length rest)\<rparr> =
            r\<lparr>compressed := rest, offset := offset r + (length (c # cs) - length rest)\<rparr>"
          by (simp add: Suc_diff_le)
        from eq Some have "magic_scan b n t r = magic_scan (CHR 0x00) 0 (t + 1)
            (r\<lparr>compressed := rest, offset := offset r + (length (c # cs) - length rest)\<rparr>)"
          by (simp only: option.case req)
        moreover from True Some
        have "find_after zeros7 (replicate n (CHR 0x00) @ c # cs) = Some rest"
          by (simp add: replicate_app_Cons_same)
        ultimately show ?thesis by (simp only: option.case)
      qed
    qed
  qed
qed

text \<open>
  C3 (as amended). \<^verbatim>\<open>readHeaderMagic\<close> reads 7 bytes, failing with the error of the
  read when there are fewer, and fails with \<open>ErrInvalidFile\<close> unless they are
  \<^verbatim>\<open>dissect\<close>. It then consumes the stream through the first occurrence of seven
  consecutive zero bytes and, from there on, through the next occurrence of seven
  consecutive zero bytes, and returns successfully with exactly that consumed. When the
  source ends or fails first, its error is returned (\<^verbatim>\<open>io.EOF\<close> at a plain end). The
  two occurrences are found as by two forward searches, so the zero bytes need not form
  runs of exactly seven.
\<close>

theorem readHeaderMagic_two_zero_blocks:
  "readHeaderMagic r =
     (if length (compressed r) < 7
      then Inl (case src_fail r of None \<Rightarrow> UnexpectedEOF | Some e \<Rightarrow> e)
      else if take 7 (compressed r) \<noteq> ''dissect'' then Inl ErrInvalidFile
      else (case find_after zeros7 (drop 7 (compressed r)) of
              None \<Rightarrow> Inl (case src_fail r of None \<Rightarrow> EOF | Some e \<Rightarrow> e)
            | Some bs1 \<Rightarrow>
                (case find_after zeros7 bs1 of
                   None \<Rightarrow> Inl (case src_fail r of None \<Rightarrow> EOF | Some e \<Rightarrow> e)
                 | Some bs2 \<Rightarrow>
                     Inr (r\<lparr>compressed := bs2,
                            offset := offset r + (length (compressed r) - length bs2)\<rparr>))))"
proof (cases "length (compressed r) < 7")
  case True
  then show ?thesis by (simp add: readHeaderMagic_def Read_def)
next
  case False
  let ?r1 = "r\<lparr>compressed := drop 7 (compressed r), offset := offset r + 7\<rparr>"
  from False have rd: "Read 7 r = Inr (take 7 (compressed r), ?r1)"
    by (simp add: Read_def)
  show ?thesis
  proof (cases "take 7 (compressed r) = ''dissect''")
    case ne: False
    with False rd show ?thesis by (simp add: readHeaderMagic_def)
  next
    case True
    with rd have m: "readHeaderMagic r = magic_scan (CHR 0x00) 0 0 ?r1"
      by (simp add: readHeaderMagic_def)
    show ?thesis
    proof (cases "find_after zeros7 (drop 7 (compressed r))")
      case None
      with m False True magic_scan_run [of 0 0 ?r1 "drop 7 (compressed r)" "CHR 0x00"]
      show ?thesis by simp
    next
      case (Some bs1)
      let ?r2 = "?r1\<lparr>compressed := bs1,
          offset := offset ?r1 + (length (drop 7 (compressed r)) - length bs1)\<rparr>"
      from find_after_length [OF Some] have l1: "length bs1 + 7 \<le> length (compressed r)"
        by (simp add: length_zeros7)
      from m Some magic_scan_run [of 0 0 ?r1 "drop 7 (compressed r)" "CHR 0x00"]
      have m2: "readHeaderMagic r = magic_scan (CHR 0x00) 0 1 ?r2" by simp
      show ?thesis
      proof (cases "find_after zeros7 bs1")
        case None
        with m2 False True Some magic_scan_run [of 0 1 ?r2 bs1 "CHR 0x00"]
        show ?thesis by simp
      next
        case bs2: (Some bs2)
        from find_after_length [OF bs2] have l2: "length bs2 + 7 \<le> length bs1"
          by (simp add: length_zeros7)
        let ?r3 = "?r2\<lparr>compressed := bs2, offset := offset ?r2 + (length bs1 - length bs2)\<rparr>"
        from m2 bs2 magic_scan_run [of 0 1 ?r2 bs1 "CHR 0x00"]
        have "readHeaderMagic r = magic_scan (CHR 0x00) 0 (Suc (Suc 0)) ?r3" by simp
        also have "\<dots> = Inr ?r3" by (subst magic_scan.simps) simp
        finally have "readHeaderMagic r = Inr ?r3" .
        moreover from l1 l2 have "?r3 = r\<lparr>compressed := bs2,
            offset := offset r + (length (compressed r) - length bs2)\<rparr>" by simp
        ultimately show ?thesis using False True Some bs2 by simp
      qed
    qed
  qed
qed

text \<open>
  C3 as stated fails: after the magic, a single run of fourteen zero bytes is taken for
  both sequences, and a run of eight zero bytes counts as the first; in neither stream
  has the function consumed two separate runs of exactly seven zero bytes when it
  returns.
\<close>

theorem readHeaderMagic_exact_runs_counterexample:
  "readHeaderMagic (reader_on (''dissect'' @ replicate 14 (CHR 0x00) @ ''rest'') None) =
     Inr ((reader_on ''rest'' None)\<lparr>offset := 21\<rparr>) \<and>
   zero_runs (replicate 14 (CHR 0x00)) = [14] \<and>
   readHeaderMagic (reader_on (''dissect'' @ replicate 8 (CHR 0x00) @ ''x'' @
       replicate 7 (CHR 0x00) @ ''rest'') None) =
     Inr ((reader_on ''rest'' None)\<lparr>offset := 23\<rparr>) \<and>
   zero_runs (replicate 8 (CHR 0x00) @ ''x'' @ replicate 7 (CHR 0x00)) = [8, 7]"
  by code_simp

section \<open>The property loop: player records\<close>

text \<open>
  C4. When the key is \<^verbatim>\<open>"playlistcategory"\<close> or \<^verbatim>\<open>"id"\<close> and the loop is inside a
  player record, the iteration first appends the player in progress and leaves the
  player record (the \<^verbatim>\<open>"playerid"\<close> block does nothing, the terminator block
  finalizes and changes no property), and then stores the same pair in the top-level
  property map: the state after the iteration has the player appended, is outside a
  player record, and maps the key to the value.
\<close>

theorem terminator_finalizes_then_records:
  "playerData st \<Longrightarrow> k = ''playlistcategory'' \<or> k = ''id'' \<Longrightarrow>
     on_playerid k st = st \<and>
     on_terminator k st = st\<lparr>players := players st @ [currentPlayer st], playerData := False\<rparr> \<and>
     record_pair k v (on_terminator k st) =
       Inr ((on_terminator k st)\<lparr>props := (props st)(k \<mapsto> v)\<rparr>) \<and>
     header_step k v st =
       Inr (st\<lparr>players := players st @ [currentPlayer st], playerData := False,
               props := (props st)(k \<mapsto> v)\<rparr>)"
  by (auto simp: header_step_def on_playerid_def on_terminator_def record_pair_def)

theorem terminator_finalizes_then_records_witness:
  "header_step ''id'' ''m-1''
     (loop_init\<lparr>playerData := True, currentPlayer := Player0\<lparr>Username := ''alice''\<rparr>\<rparr>) =
   Inr (loop_init\<lparr>players := [Player0\<lparr>Username := ''alice''\<rparr>], playerData := False,
          currentPlayer := Player0\<lparr>Username := ''alice''\<rparr>,
          props := [''id'' \<mapsto> ''m-1'']\<rparr>)"
proof -
  let ?st = "loop_init\<lparr>playerData := True, currentPlayer := Player0\<lparr>Username := ''alice''\<rparr>\<rparr>"
  have h1: "playerData ?st" by simp
  have h2: "''id'' = ''playlistcategory'' \<or> ''id'' = ''id''" by simp
  from terminator_finalizes_then_records [OF h1 h2, of "''m-1''"]
  show ?thesis by (simp add: loop_init_def)
qed

text \<open>
  C7. An iteration with the key \<^verbatim>\<open>"playerid"\<close> appends the player in progress, if
  there is one, and starts a player record whose fields are all at their zero value but
  the identifier, which is the value of the pair. So two player records, each opened by
  \<^verbatim>\<open>"playerid"\<close> and followed by its \<^verbatim>\<open>"playername"\<close> and \<^verbatim>\<open>"team"\<close>, give two
  entries, each with its own three values and nothing of the other record.
\<close>

theorem playerid_starts_fresh_record:
  "header_step ''playerid'' v st =
     Inr (st\<lparr>players := (if playerData st then players st @ [currentPlayer st] else players st),
             playerData := True, currentPlayer := Player0\<lparr>ID := v\<rparr>\<rparr>) \<and>
   (Atoi t1 = (n1, None) \<and> Atoi t2 = (n2, None) \<longrightarrow>
    run_pairs [(''playerid'', a), (''playername'', u1), (''team'', t1),
               (''playerid'', b), (''playername'', u2), (''team'', t2), (''id'', m)] st =
      Inr (st\<lparr>players :=
                (if playerData st then players st @ [currentPlayer st] else players st) @
                [Player0\<lparr>ID := a, Username := u1, TeamIndex := n1\<rparr>,
                 Player0\<lparr>ID := b, Username := u2, TeamIndex := n2\<rparr>],
              playerData := False,
              currentPlayer := Player0\<lparr>ID := b, Username := u2, TeamIndex := n2\<rparr>,
              props := (props st)(''id'' \<mapsto> m)\<rparr>))"
  by (simp add: header_step_def on_playerid_def on_terminator_def record_pair_def Let_def
        set_int_def)

theorem playerid_starts_fresh_record_witness:
  "run_pairs [(''playerid'', ''id-a''), (''playername'', ''alice''), (''team'', ''1''),
              (''playerid'', ''id-b''), (''playername'', ''bob''), (''team'', ''0''),
              (''id'', ''match'')] loop_init =
     Inr (loop_init\<lparr>players :=
                [Player0\<lparr>ID := ''id-a'', Username := ''alice'', TeamIndex := 1\<rparr>,
                 Player0\<lparr>ID := ''id-b'', Username := ''bob'', TeamIndex := 0\<rparr>],
              playerData := False,
              currentPlayer := Player0\<lparr>ID := ''id-b'', Username := ''bob'', TeamIndex := 0\<rparr>,
              props := [''id'' \<mapsto> ''match'']\<rparr>)"
proof -
  have h: "Atoi ''1'' = (1, None) \<and> Atoi ''0'' = (0, None)"
    by (simp add: Atoi_def is_digit_def dec_value_def)
  from h playerid_starts_fresh_record [of "''id-a''" loop_init "''1''" 1 "''0''" 0
      "''id-a''" "''alice''" "''id-b''" "''bob''" "''match''"]
  show ?thesis
    by (simp add: loop_init_def del: run_pairs.simps)
qed

section \<open>The property loop on a stream of pairs\<close>

lemma readHeaderString_hdr:
  assumes "compressed r = hdr_string s @ rest" and "length s < 256"
  shows "readHeaderString r =
           Inr (s, r\<lparr>compressed := rest, offset := offset r + (8 + length s)\<rparr>)"
  using assms
  by (simp add: readHeaderString_def Read_def hdr_string_def strSep_def Let_def)

lemma readHeader_loop_pair:
  assumes "compressed r = hdr_string k @ hdr_string v @ rest"
    and "length k < 256" and "length v < 256"
  shows "readHeader_loop st r =
     (case header_step k v st of
        Inl e \<Rightarrow> Inl e
      | Inr st' \<Rightarrow>
          if props st' ''teamscore1'' \<noteq> None
          then Inr (st', r\<lparr>compressed := rest, offset := offset r + (16 + length k + length v)\<rparr>)
          else readHeader_loop st'
                 (r\<lparr>compressed := rest, offset := offset r + (16 + length k + length v)\<rparr>))"
proof -
  let ?r1 = "r\<lparr>compressed := hdr_string v @ rest, offset := offset r + (8 + length k)\<rparr>"
  have a: "readHeaderString r = Inr (k, ?r1)"
    using assms by (simp add: readHeaderString_hdr)
  have b: "readHeaderString ?r1 =
      Inr (v, ?r1\<lparr>compressed := rest, offset := offset ?r1 + (8 + length v)\<rparr>)"
    using assms by (intro readHeaderString_hdr) simp_all
  show ?thesis
    by (subst readHeader_loop.simps) (simp add: a b add.assoc split: sum.splits)
qed

lemma on_playerid_props: "props (on_playerid k st) = props st"
  by (simp add: on_playerid_def Let_def)

lemma on_terminator_props: "props (on_terminator k st) = props st"
  by (simp add: on_terminator_def)

lemma set_int_props: "set_int v f st = Inr st' \<Longrightarrow> props st' = props st"
  by (auto simp: set_int_def split: prod.splits option.splits)

lemma record_pair_props:
  "record_pair k v st = Inr st' \<Longrightarrow> props st' = props st \<or> props st' = (props st)(k \<mapsto> v)"
  unfolding record_pair_def
  by (auto split: if_splits prod.splits option.splits dest: set_int_props)

lemma header_step_props_mono:
  "header_step k v st = Inr st' \<Longrightarrow> props st' x = None \<Longrightarrow> props st x = None"
  using record_pair_props [of k v "on_terminator k (on_playerid k st)" st']
  by (auto simp: header_step_def on_playerid_props on_terminator_props split: if_splits)

lemma encode_pairs_append: "encode_pairs (a @ b) = encode_pairs a @ encode_pairs b"
  by (induction a) auto

lemma readHeader_loop_pairs:
  assumes "\<forall>(k, v) \<in> set kvs. length k < 256 \<and> length v < 256"
    and "run_pairs kvs st = Inr s" and "props s ''teamscore1'' = None"
    and "compressed r = encode_pairs kvs @ rest"
  shows "readHeader_loop st r =
     readHeader_loop s (r\<lparr>compressed := rest, offset := offset r + length (encode_pairs kvs)\<rparr>)"
  using assms
proof (induction kvs arbitrary: st r)
  case Nil
  then show ?case by (cases r) simp
next
  case (Cons kv kvs)
  obtain k v where kv: "kv = (k, v)" by (cases kv)
  from Cons.prems(2) kv obtain st1 where
    h: "header_step k v st = Inr st1" and rp: "run_pairs kvs st1 = Inr s"
    by (auto split: sum.splits)
  have none1: "props st1 ''teamscore1'' = None"
    using rp Cons.prems(3)
  proof (induction kvs arbitrary: st1)
    case Nil
    then show ?case by simp
  next
    case (Cons a as)
    then show ?case
      by (cases a) (auto split: sum.splits dest: header_step_props_mono)
  qed
  let ?r1 = "r\<lparr>compressed := encode_pairs kvs @ rest,
                 offset := offset r + (16 + length k + length v)\<rparr>"
  from Cons.prems(1,4) kv
  have "readHeader_loop st r = readHeader_loop st1 ?r1"
    by (subst readHeader_loop_pair [of r k v "encode_pairs kvs @ rest"]) (simp_all add: h none1)
  also have "\<dots> = readHeader_loop s
      (?r1\<lparr>compressed := rest, offset := offset ?r1 + length (encode_pairs kvs)\<rparr>)"
    using Cons.prems(1,3) rp by (intro Cons.IH) simp_all
  finally show ?case
    by (simp add: kv hdr_string_def strSep_def add.assoc)
qed



lemma assemble_header_Inr:
  assumes "assemble_header tparse st = Inr h"
  shows "snd (Atoi (lookup (props st) ''code'')) = None \<and>
         snd (Atoi (lookup (props st) ''matchtype'')) = None \<and>
         snd (Atoi (lookup (props st) ''worldid'')) = None \<and>
         snd (Atoi (lookup (props st) ''gamemodeid'')) = None \<and>
         snd (Atoi (lookup (props st) ''roundspermatch'')) = None \<and>
         snd (Atoi (lookup (props st) ''roundspermatchovertime'')) = None \<and>
         snd (Atoi (lookup (props st) ''roundnumber'')) = None \<and>
         snd (Atoi (lookup (props st) ''overtimeroundnumber'')) = None \<and>
         Atoi (lookup (props st) ''teamscore0'') = (Score (Teams h ! 0), None) \<and>
         Atoi (lookup (props st) ''teamscore1'') = (Score (Teams h ! 1), None) \<and>
         PlaylistCategory h = fst (Atoi (lookup (props st) ''playlistcategory'')) \<and>
         Players h = players st \<and> GMSettings h = gmSettings st"
  using assms unfolding assemble_header_def Let_def
  by (auto split: prod.splits option.splits sum.splits)



lemma readHeader_loop_stops:
  assumes "\<forall>(k, v) \<in> set (pre @ [(k', v')]). length k < 256 \<and> length v < 256"
    and "run_pairs pre st = Inr s" and "props s ''teamscore1'' = None"
    and "header_step k' v' s = Inr st'" and "props st' ''teamscore1'' \<noteq> None"
    and "compressed r = encode_pairs (pre @ [(k', v')]) @ rest"
  shows "readHeader_loop st r =
     Inr (st', r\<lparr>compressed := rest,
                 offset := offset r + length (encode_pairs (pre @ [(k', v')]))\<rparr>)"
proof -
  let ?r1 = "r\<lparr>compressed := hdr_string k' @ hdr_string v' @ rest,
                 offset := offset r + length (encode_pairs pre)\<rparr>"
  from assms(1,6) have "readHeader_loop st r = readHeader_loop s ?r1"
    by (intro readHeader_loop_pairs [OF _ assms(2,3)]) (simp_all add: encode_pairs_append)
  also from assms(1) have "\<dots> =
      Inr (st', ?r1\<lparr>compressed := rest, offset := offset ?r1 + (16 + length k' + length v')\<rparr>)"
    by (subst readHeader_loop_pair [of ?r1 k' v' rest]) (simp_all add: assms(4,5))
  finally show ?thesis
    by (simp add: encode_pairs_append hdr_string_def strSep_def add.assoc)
qed


text \<open>
  C5. The loop of \<^verbatim>\<open>readHeader\<close> ends in the iteration whose pair first puts
  \<^verbatim>\<open>"teamscore1"\<close> into the property map, that pair included. For a stream that
  holds the pairs \<open>pre\<close>, then the pair \<open>(k', v')\<close>, then any bytes \<open>rest\<close>: when the
  map has no \<^verbatim>\<open>"teamscore1"\<close> after \<open>pre\<close> (the map never loses a key, so it had
  none earlier either) and has it after \<open>(k', v')\<close>, the loop returns the state after
  that pair and has consumed exactly the pairs, leaving \<open>rest\<close>; \<^verbatim>\<open>readHeader\<close>
  assembles the header from that state, and the scores of the two teams are the
  integers of \<^verbatim>\<open>"teamscore0"\<close> and \<^verbatim>\<open>"teamscore1"\<close>. The witness is the stream
  with \<^verbatim>\<open>teamscore0=3\<close> and \<^verbatim>\<open>teamscore1=1\<close>.
\<close>

theorem readHeader_stops_at_teamscore1:
  assumes "\<forall>(k, v) \<in> set (pre @ [(k', v')]). length k < 256 \<and> length v < 256"
    and "run_pairs pre loop_init = Inr s" and "props s ''teamscore1'' = None"
    and "header_step k' v' s = Inr st'" and "props st' ''teamscore1'' \<noteq> None"
    and "compressed r = encode_pairs (pre @ [(k', v')]) @ rest"
  shows "readHeader_loop loop_init r =
           Inr (st', r\<lparr>compressed := rest,
                       offset := offset r + length (encode_pairs (pre @ [(k', v')]))\<rparr>) \<and>
         readHeader tparse r =
           (case assemble_header tparse st' of
              Inl e \<Rightarrow> Inl e
            | Inr h \<Rightarrow> Inr (h, r\<lparr>compressed := rest,
                       offset := offset r + length (encode_pairs (pre @ [(k', v')]))\<rparr>)) \<and>
         (\<forall>h. assemble_header tparse st' = Inr h \<longrightarrow>
            Atoi (lookup (props st') ''teamscore0'') = (Score (Teams h ! 0), None) \<and>
            Atoi (lookup (props st') ''teamscore1'') = (Score (Teams h ! 1), None))"
  using readHeader_loop_stops [OF assms] assemble_header_Inr [of tparse st']
  by (simp add: readHeader_def)

theorem readHeader_stops_at_teamscore1_witness:
  "(case readHeader fixed_layout_time
           (reader_on (encode_pairs (base_props @ [(''teamscore0'', ''3''), (''teamscore1'', ''1'')])
              @ ''rest'') None) of
      Inl e \<Rightarrow> None
    | Inr (h, r) \<Rightarrow> Some (Score (Teams h ! 0), Score (Teams h ! 1), compressed r)) =
   Some (3, 1, ''rest'')"
proof -
  let ?pre = "base_props @ [(''teamscore0'', ''3'')]"
  let ?r = "reader_on (encode_pairs (?pre @ [(''teamscore1'', ''1'')]) @ ''rest'') None"
  let ?s = "loop_init\<lparr>props := [''version'' \<mapsto> ''Y8S1'', ''code'' \<mapsto> ''7'',
      ''datetime'' \<mapsto> ''2023-01-15-12-30-45'', ''matchtype'' \<mapsto> ''2'', ''worldid'' \<mapsto> ''5'',
      ''gamemodeid'' \<mapsto> ''1'', ''roundspermatch'' \<mapsto> ''6'',
      ''roundspermatchovertime'' \<mapsto> ''3'', ''roundnumber'' \<mapsto> ''0'',
      ''overtimeroundnumber'' \<mapsto> ''0'', ''teamscore0'' \<mapsto> ''3'']\<rparr>"
  let ?st = "?s\<lparr>props := (props ?s)(''teamscore1'' \<mapsto> ''1'')\<rparr>"
  have l: "\<forall>(k, v) \<in> set (?pre @ [(''teamscore1'', ''1'')]). length k < 256 \<and> length v < 256"
    by (simp add: base_props_def)
  have a: "run_pairs ?pre loop_init = Inr ?s"
    by (simp add: base_props_def header_step_def on_playerid_def on_terminator_def
          record_pair_def loop_init_def)
  have b: "props ?s ''teamscore1'' = None"
    by (simp add: loop_init_def)
  have c: "header_step ''teamscore1'' ''1'' ?s = Inr ?st"
    by (simp add: header_step_def on_playerid_def on_terminator_def record_pair_def
          loop_init_def)
  have d: "props ?st ''teamscore1'' \<noteq> None"
    by simp
  have e: "compressed ?r = encode_pairs (?pre @ [(''teamscore1'', ''1'')]) @ ''rest''"
    by (simp add: reader_on_def)
  have f: "\<exists>h. assemble_header fixed_layout_time ?st = Inr h"
    by (simp add: assemble_header_def lookup_def loop_init_def Atoi_def is_digit_def
          dec_value_def fixed_layout_time_def Let_def)
  have g: "Atoi (lookup (props ?st) ''teamscore0'') = (3, None)"
      "Atoi (lookup (props ?st) ''teamscore1'') = (1, None)"
    by (simp_all add: lookup_def Atoi_def is_digit_def dec_value_def)
  from readHeader_stops_at_teamscore1 [OF l a b c d e, of fixed_layout_time] f g
  show ?thesis
    by (auto simp: reader_on_def)
qed



section \<open>The player scanner: reconciliation\<close>

lemma enrich_not_found:
  "\<forall>p \<in> set ps. Username p \<noteq> u \<Longrightarrow> enrich u pid t ps = (False, ps)"
  by (induction ps) auto

lemma enrich_first:
  "i < length ps \<Longrightarrow> Username (ps ! i) = u \<Longrightarrow> \<forall>j<i. Username (ps ! j) \<noteq> u \<Longrightarrow>
   enrich u pid t ps = (True, ps[i := (ps ! i)\<lparr>ProfileID := pid, TeamIndex := t\<rparr>])"
proof (induction ps arbitrary: i)
  case Nil
  then show ?case by simp
next
  case (Cons p ps)
  show ?case
  proof (cases i)
    case 0
    with Cons.prems show ?thesis by simp
  next
    case (Suc k)
    from Cons.prems Suc have p: "Username p \<noteq> u" by auto
    from Cons.prems Suc have "k < length ps" "Username (ps ! k) = u"
      "\<forall>j<k. Username (ps ! j) \<noteq> u" by auto
    from Cons.IH [OF this] p Suc show ?thesis by simp
  qed
qed

text \<open>
  C10. The reconciliation of one scanned record changes at most one entry of the list.
  When \<open>i\<close> is the lowest index of a player with the scanned username, the list after
  the step is the list before with entry \<open>i\<close> given the scanned profile id and team
  index: every other entry, a later one of the same username included, and every other
  field of entry \<open>i\<close> are as before. When no player has the scanned username, the list
  after the step is the list before with one new entry at its end.
\<close>

theorem reconcile_touches_first_match_only:
  "(i < length ps \<and> Username (ps ! i) = u \<and> (\<forall>j<i. Username (ps ! j) \<noteq> u) \<longrightarrow>
      reconcile u pid t ps = ps[i := (ps ! i)\<lparr>ProfileID := pid, TeamIndex := t\<rparr>]) \<and>
   ((\<forall>p \<in> set ps. Username p \<noteq> u) \<longrightarrow>
      reconcile u pid t ps = ps @ [Player0\<lparr>ProfileID := pid, Username := u, TeamIndex := t\<rparr>])"
  by (auto simp: reconcile_def enrich_first enrich_not_found)

theorem reconcile_touches_first_match_only_witness:
  "reconcile ''al'' ''p-9'' 1
     [Player0\<lparr>Username := ''bob''\<rparr>, Player0\<lparr>ID := ''x'', Username := ''al''\<rparr>,
      Player0\<lparr>ID := ''y'', Username := ''al''\<rparr>] =
     [Player0\<lparr>Username := ''bob''\<rparr>,
      Player0\<lparr>ID := ''x'', Username := ''al'', ProfileID := ''p-9'', TeamIndex := 1\<rparr>,
      Player0\<lparr>ID := ''y'', Username := ''al''\<rparr>] \<and>
   reconcile ''eve'' ''p-9'' 1 [Player0\<lparr>Username := ''bob''\<rparr>] =
     [Player0\<lparr>Username := ''bob''\<rparr>,
      Player0\<lparr>ProfileID := ''p-9'', Username := ''eve'', TeamIndex := 1\<rparr>]"
  using reconcile_touches_first_match_only [of 1
      "[Player0\<lparr>Username := ''bob''\<rparr>, Player0\<lparr>ID := ''x'', Username := ''al''\<rparr>,
        Player0\<lparr>ID := ''y'', Username := ''al''\<rparr>]" "''al''" "''p-9''" 1]
    reconcile_touches_first_match_only [of 0 "[Player0\<lparr>Username := ''bob''\<rparr>]"
      "''eve''" "''p-9''" 1]
  by (simp add: Player0_def)

section \<open>The player scanner: the loop\<close>

lemma after_records_loop:
  "after_records k (uc, r) = Some (uc', r') \<Longrightarrow> i + k \<le> 10 \<Longrightarrow>
   readPlayers_loop i uc r = readPlayers_loop (i + k) uc' r'"
proof (induction k arbitrary: i uc r)
  case 0
  then show ?case by simp
next
  case (Suc k)
  from Suc.prems obtain r1 pushed r9 where
    s: "Seek indicator r = (None, r1)" and p: "scan_player r1 = Inr (pushed, r9)"
    and a: "after_records k (uc @ [pushed], r9) = Some (uc', r')"
    by (auto split: prod.splits option.splits sum.splits)
  from Suc.prems have "i < 10" "Suc i + k \<le> 10" by simp_all
  with Suc.IH [OF a, of "Suc i"] s p show ?case
    by (subst readPlayers_loop.simps) simp
qed

lemma readPlayers_loop_pushes:
  "readPlayers_loop i uc r = Inr (uc', r') \<Longrightarrow> i \<le> 10 \<Longrightarrow> length uc' + i \<le> length uc + 10"
proof (induction i uc r rule: readPlayers_loop.induct)
  case (1 i uc r)
  from "1.prems" "1.IH" show ?case
    by (subst (asm) readPlayers_loop.simps)
       (fastforce split: if_splits prod.splits option.splits sum.splits)
qed

lemma Read_Header: "Read n r = Inr (b, r') \<Longrightarrow> Header r' = Header r"
  by (auto simp: Read_def split: if_splits)

lemma Seek_Header: "Seek pat r = (eo, r') \<Longrightarrow> Header r' = Header r"
  by (auto simp: Seek_def split: option.splits)

lemma ReadInt_Header: "ReadInt r = Inr (n, r') \<Longrightarrow> Header r' = Header r"
  by (auto simp: ReadInt_def split: sum.splits dest: Read_Header)

lemma ReadString_Header: "ReadString r = Inr (s, r') \<Longrightarrow> Header r' = Header r"
  by (auto simp: ReadString_def Read_def split: sum.splits if_splits)

lemma scan_player_cases:
  assumes "scan_player r1 = Inr (pushed, r9)"
  obtains ti r2 sk r3 u r4 r5 pid r6 r8 unk where
    "ReadInt r1 = Inr (ti, r2)" "Read 12 r2 = Inr (sk, r3)" "ReadString r3 = Inr (u, r4)"
    "Seek profileIDIndicator r4 = (None, r5)" "ReadString r5 = Inr (pid, r6)"
    "Seek unknownIndicator (r6\<lparr>Header := (Header r6)
        \<lparr>Players := reconcile u pid (if ti smod 2 = 0 then 1 else 0) (Players (Header r6))\<rparr>\<rparr>)
       = (None, r8)"
    "Read 30 r8 = Inr (unk, r9)" "pushed = (u, unk)"
  using assms
  by (auto simp: scan_player_def Let_def split: sum.splits prod.splits option.splits)

lemma scan_player_players:
  assumes "scan_player r1 = Inr (pushed, r9)"
  shows "\<exists>u pid t. (t = 0 \<or> t = 1) \<and>
           Players (Header r9) = reconcile u pid t (Players (Header r1))"
proof -
  from assms obtain ti r2 sk r3 u r4 r5 pid r6 r8 unk where
    a: "ReadInt r1 = Inr (ti, r2)" "Read 12 r2 = Inr (sk, r3)" "ReadString r3 = Inr (u, r4)"
    "Seek profileIDIndicator r4 = (None, r5)" "ReadString r5 = Inr (pid, r6)"
    and b: "Seek unknownIndicator (r6\<lparr>Header := (Header r6)
        \<lparr>Players := reconcile u pid (if ti smod 2 = 0 then 1 else 0) (Players (Header r6))\<rparr>\<rparr>)
       = (None, r8)"
    "Read 30 r8 = Inr (unk, r9)"
    by (rule scan_player_cases)
  from a have h6: "Header r6 = Header r1"
    by (simp add: ReadInt_Header Read_Header ReadString_Header Seek_Header)
  from b have "Header r9 = (Header r6)
        \<lparr>Players := reconcile u pid (if ti smod 2 = 0 then 1 else 0) (Players (Header r6))\<rparr>"
    using Seek_Header [OF b(1)] Read_Header [OF b(2)] by simp
  with h6 have "Players (Header r9) =
      reconcile u pid (if ti smod 2 = 0 then 1 else 0) (Players (Header r1))"
    by simp
  moreover have "(if ti smod 2 = 0 then 1 else 0) = (0::int) \<or>
      (if ti smod 2 = 0 then 1 else 0) = (1::int)" by simp
  ultimately show ?thesis by blast
qed

lemma readPlayers_loop_invariant:
  assumes step: "\<And>u pid t ps. t = 0 \<or> t = 1 \<Longrightarrow> P ps \<Longrightarrow> P (reconcile u pid t ps)"
  shows "readPlayers_loop i uc r = Inr (uc', r') \<Longrightarrow> P (Players (Header r)) \<Longrightarrow>
         P (Players (Header r'))"
proof (induction i uc r rule: readPlayers_loop.induct)
  case (1 i uc r)
  show ?case
  proof (cases "i < 10")
    case False
    with "1.prems" show ?thesis by (simp add: readPlayers_loop.simps)
  next
    case True
    obtain eo r1 where s: "Seek indicator r = (eo, r1)" by (cases "Seek indicator r")
    have h1: "Header r1 = Header r" using s by (rule Seek_Header)
    show ?thesis
    proof (cases eo)
      case (Some e)
      with "1.prems" True s h1 show ?thesis
        by (simp add: readPlayers_loop.simps split: if_splits)
    next
      case None
      show ?thesis
      proof (cases "scan_player r1")
        case (Inl e)
        with "1.prems" True s None show ?thesis by (simp add: readPlayers_loop.simps)
      next
        case (Inr x)
        obtain pushed r9 where x: "x = (pushed, r9)" by (cases x)
        from "1.prems" True s None Inr x
        have l: "readPlayers_loop (i + 1) (uc @ [pushed]) r9 = Inr (uc', r')"
          by (simp add: readPlayers_loop.simps)
        from scan_player_players [of r1 pushed r9] Inr x h1 "1.prems"(2) step
        have "P (Players (Header r9))" by auto
        with "1.IH" [OF True s [symmetric] None Inr x [symmetric]] None l
        show ?thesis by simp
      qed
    qed
  qed
qed

lemma scan_player_failure_sites:
  "(ReadInt r1 = Inl e \<longrightarrow> scan_player r1 = Inl e) \<and>
   (ReadInt r1 = Inr (ti, r2) \<and> Read 12 r2 = Inl e \<longrightarrow> scan_player r1 = Inl e) \<and>
   (ReadInt r1 = Inr (ti, r2) \<and> Read 12 r2 = Inr (sk, r3) \<and> ReadString r3 = Inl e \<longrightarrow>
      scan_player r1 = Inl e) \<and>
   (ReadInt r1 = Inr (ti, r2) \<and> Read 12 r2 = Inr (sk, r3) \<and> ReadString r3 = Inr (u, r4) \<and>
    Seek profileIDIndicator r4 = (Some e, r5) \<longrightarrow> scan_player r1 = Inl e) \<and>
   (ReadInt r1 = Inr (ti, r2) \<and> Read 12 r2 = Inr (sk, r3) \<and> ReadString r3 = Inr (u, r4) \<and>
    Seek profileIDIndicator r4 = (None, r5) \<and> ReadString r5 = Inl e \<longrightarrow>
      scan_player r1 = Inl e) \<and>
   (ReadInt r1 = Inr (ti, r2) \<and> Read 12 r2 = Inr (sk, r3) \<and> ReadString r3 = Inr (u, r4) \<and>
    Seek profileIDIndicator r4 = (None, r5) \<and> ReadString r5 = Inr (pid, r6) \<and>
    Seek unknownIndicator (r6\<lparr>Header := (Header r6)\<lparr>Players :=
        reconcile u pid (if ti smod 2 = 0 then 1 else 0) (Players (Header r6))\<rparr>\<rparr>) = (Some e, r8)
      \<longrightarrow> scan_player r1 = Inl e) \<and>
   (ReadInt r1 = Inr (ti, r2) \<and> Read 12 r2 = Inr (sk, r3) \<and> ReadString r3 = Inr (u, r4) \<and>
    Seek profileIDIndicator r4 = (None, r5) \<and> ReadString r5 = Inr (pid, r6) \<and>
    Seek unknownIndicator (r6\<lparr>Header := (Header r6)\<lparr>Players :=
        reconcile u pid (if ti smod 2 = 0 then 1 else 0) (Players (Header r6))\<rparr>\<rparr>) = (None, r8) \<and>
    Read 30 r8 = Inl e \<longrightarrow> scan_player r1 = Inl e)"
  by (simp add: scan_player_def Let_def)

lemma readPlayers_at_iteration:
  assumes "after_records k ([], r0) = Some (uc, r)" and "k < 10"
  shows "readPlayers r0 =
     (case Seek indicator r of
        (Some e, r1) \<Rightarrow> if e \<noteq> ErrMagicMismatch then Inl e else Inr r1
      | (None, r1) \<Rightarrow>
          (case scan_player r1 of
             Inl e \<Rightarrow> Inl e
           | Inr (pushed, r9) \<Rightarrow>
               (case readPlayers_loop (k + 1) (uc @ [pushed]) r9 of
                  Inl e \<Rightarrow> Inl e | Inr (uc', r') \<Rightarrow> Inr r')))"
proof -
  from after_records_loop [OF assms(1), of 0] assms(2)
  have "readPlayers_loop 0 [] r0 = readPlayers_loop k uc r" by simp
  with assms(2) show ?thesis
    by (simp add: readPlayers_def readPlayers_loop.simps [of k]
          split: prod.splits option.splits sum.splits)
qed

lemma readPlayers_after_ten:
  assumes "after_records 10 ([], r0) = Some (uc, r)"
  shows "readPlayers r0 = Inr r"
proof -
  from after_records_loop [OF assms, of 0]
  have "readPlayers_loop 0 [] r0 = readPlayers_loop 10 uc r" by simp
  then show ?thesis by (simp add: readPlayers_def readPlayers_loop.simps [of 10])
qed

text \<open>
  C8. The loop of \<^verbatim>\<open>readPlayers\<close> runs at most ten iterations: a run that succeeds
  has pushed at most ten pairs, and after ten complete iterations the function returns
  successfully without looking at the rest of the stream. In an iteration \<open>k < 10\<close>:
  when the seek for the team marker reports the pattern-not-found signal the function
  returns with no error; when that seek fails with any other error, or when any of the
  seven later reads and seeks of the iteration fails, the function returns that error.
\<close>

theorem readPlayers_bound_stop_and_failures:
  "(readPlayers_loop 0 [] r = Inr (uc', r') \<longrightarrow> length uc' \<le> 10) \<and>
   (after_records 10 ([], r) = Some (uc, rk) \<longrightarrow> readPlayers r = Inr rk) \<and>
   (k < 10 \<and> after_records k ([], r) = Some (uc, rk) \<longrightarrow>
      (Seek indicator rk = (Some ErrMagicMismatch, ra) \<longrightarrow> readPlayers r = Inr ra) \<and>
      (Seek indicator rk = (Some e, ra) \<and> e \<noteq> ErrMagicMismatch \<longrightarrow> readPlayers r = Inl e) \<and>
      (Seek indicator rk = (None, ra) \<longrightarrow>
         (ReadInt ra = Inl e \<longrightarrow> readPlayers r = Inl e) \<and>
         (ReadInt ra = Inr (ti, rb) \<and> Read 12 rb = Inl e \<longrightarrow> readPlayers r = Inl e) \<and>
         (ReadInt ra = Inr (ti, rb) \<and> Read 12 rb = Inr (sk, rc) \<and> ReadString rc = Inl e \<longrightarrow>
            readPlayers r = Inl e) \<and>
         (ReadInt ra = Inr (ti, rb) \<and> Read 12 rb = Inr (sk, rc) \<and>
          ReadString rc = Inr (u, rd) \<and> Seek profileIDIndicator rd = (Some e, re) \<longrightarrow>
            readPlayers r = Inl e) \<and>
         (ReadInt ra = Inr (ti, rb) \<and> Read 12 rb = Inr (sk, rc) \<and>
          ReadString rc = Inr (u, rd) \<and> Seek profileIDIndicator rd = (None, re) \<and>
          ReadString re = Inl e \<longrightarrow> readPlayers r = Inl e) \<and>
         (ReadInt ra = Inr (ti, rb) \<and> Read 12 rb = Inr (sk, rc) \<and>
          ReadString rc = Inr (u, rd) \<and> Seek profileIDIndicator rd = (None, re) \<and>
          ReadString re = Inr (pid, rf) \<and>
          Seek unknownIndicator (rf\<lparr>Header := (Header rf)\<lparr>Players :=
            reconcile u pid (if ti smod 2 = 0 then 1 else 0) (Players (Header rf))\<rparr>\<rparr>)
            = (Some e, rg) \<longrightarrow> readPlayers r = Inl e) \<and>
         (ReadInt ra = Inr (ti, rb) \<and> Read 12 rb = Inr (sk, rc) \<and>
          ReadString rc = Inr (u, rd) \<and> Seek profileIDIndicator rd = (None, re) \<and>
          ReadString re = Inr (pid, rf) \<and>
          Seek unknownIndicator (rf\<lparr>Header := (Header rf)\<lparr>Players :=
            reconcile u pid (if ti smod 2 = 0 then 1 else 0) (Players (Header rf))\<rparr>\<rparr>)
            = (None, rg) \<and>
          Read 30 rg = Inl e \<longrightarrow> readPlayers r = Inl e)))"
proof (intro conjI impI; (elim conjE)?)
  assume "readPlayers_loop 0 [] r = Inr (uc', r')"
  from readPlayers_loop_pushes [OF this] show "length uc' \<le> 10" by simp
next
  assume "after_records 10 ([], r) = Some (uc, rk)"
  then show "readPlayers r = Inr rk" by (rule readPlayers_after_ten)
qed (use scan_player_failure_sites [of ra e ti rb sk rc u rd re pid rf rg] in
      \<open>simp_all add: readPlayers_at_iteration\<close>)

theorem readPlayers_bound_stop_and_failures_witness:
  "readPlayers (reader_on (bob_record @ ''tail'') None) =
     Inr ((reader_on [] None)\<lparr>offset := 74,
        Header := Header0\<lparr>Players :=
          [Player0\<lparr>ProfileID := ''p-1'', Username := ''bob'', TeamIndex := 1\<rparr>]\<rparr>\<rparr>) \<and>
   readPlayers (reader_on ''junk'' (Some ErrCorrupt)) = Inl ErrCorrupt \<and>
   readPlayers (reader_on (indicator @ ''ab'') None) = Inl UnexpectedEOF \<and>
   readPlayers (reader_on (concat (replicate 11 bob_record)) None) =
     Inr ((reader_on bob_record None)\<lparr>offset := 700,
        Header := Header0\<lparr>Players :=
          [Player0\<lparr>ProfileID := ''p-1'', Username := ''bob'', TeamIndex := 1\<rparr>]\<rparr>\<rparr>)"
proof -
  let ?h = "Header0\<lparr>Players :=
      [Player0\<lparr>ProfileID := ''p-1'', Username := ''bob'', TeamIndex := 1\<rparr>]\<rparr> :: nat list Header"
  let ?uc = "[(''bob'', replicate 30 (CHR 0x00))]"
  let ?r = "reader_on (bob_record @ ''tail'') None"
  let ?rk = "(reader_on ''tail'' None)\<lparr>offset := 70, Header := ?h\<rparr>"
  let ?ra = "(reader_on [] None)\<lparr>offset := 74, Header := ?h\<rparr>"
  have a: "after_records 1 ([], ?r) = Some (?uc, ?rk)"
    by code_simp
  have b: "Seek indicator ?rk = (Some ErrMagicMismatch, ?ra)"
    by code_simp
  from readPlayers_bound_stop_and_failures [where k = 1 and r = ?r and rk = ?rk and ra = ?ra
      and uc = ?uc] a b
  have w1: "readPlayers ?r = Inr ?ra" by simp
  let ?r2 = "reader_on ''junk'' (Some ErrCorrupt)"
  let ?ra2 = "(reader_on [] (Some ErrCorrupt))\<lparr>offset := 4\<rparr>"
  have a2: "after_records 0 ([], ?r2) = Some ([], ?r2)" by simp
  have b2: "Seek indicator ?r2 = (Some ErrCorrupt, ?ra2)" by code_simp
  from readPlayers_bound_stop_and_failures [where k = 0 and r = ?r2 and rk = ?r2
      and ra = ?ra2 and uc = "[]" and e = ErrCorrupt] a2 b2
  have w2: "readPlayers ?r2 = Inl ErrCorrupt" by simp
  let ?r3 = "reader_on (indicator @ ''ab'') None"
  let ?ra3 = "(reader_on ''ab'' None)\<lparr>offset := 6\<rparr>"
  have a3: "after_records 0 ([], ?r3) = Some ([], ?r3)" by simp
  have b3: "Seek indicator ?r3 = (None, ?ra3)" by code_simp
  have c3: "ReadInt ?ra3 = Inl UnexpectedEOF" by code_simp
  from readPlayers_bound_stop_and_failures [where k = 0 and r = ?r3 and rk = ?r3
      and ra = ?ra3 and uc = "[]" and e = UnexpectedEOF] a3 b3 c3
  have w3: "readPlayers ?r3 = Inl UnexpectedEOF" by simp
  let ?r4 = "reader_on (concat (replicate 11 bob_record)) None"
  let ?rk4 = "(reader_on bob_record None)\<lparr>offset := 700, Header := ?h\<rparr>"
  have a4: "after_records 10 ([], ?r4) = Some (replicate 10 (''bob'', replicate 30 (CHR 0x00)), ?rk4)"
    by code_simp
  from readPlayers_bound_stop_and_failures [where r = ?r4 and rk = ?rk4
      and uc = "replicate 10 (''bob'', replicate 30 (CHR 0x00))"] a4
  have w4: "readPlayers ?r4 = Inr ?rk4" by simp
  from w1 w2 w3 w4 show ?thesis by simp
qed

text \<open>
  C9. In any iteration of the loop, after the seek for the team marker, the team
  indicator, the twelve bytes and the username have been read: when the seek for the
  profile-id marker reports the pattern-not-found signal, or (that seek and the read of
  the profile id having succeeded) the seek for the third marker reports it,
  \<^verbatim>\<open>readPlayers\<close> returns that signal as its error.
\<close>

theorem pattern_not_found_fatal_inside_iteration:
  assumes "k < 10" and "after_records k ([], r) = Some (uc, rk)"
    and "Seek indicator rk = (None, ra)"
    and "ReadInt ra = Inr (ti, rb)" and "Read 12 rb = Inr (sk, rc)"
    and "ReadString rc = Inr (u, rd)"
    and "Seek profileIDIndicator rd = (Some ErrMagicMismatch, re) \<or>
         (Seek profileIDIndicator rd = (None, re) \<and> ReadString re = Inr (pid, rf) \<and>
          Seek unknownIndicator (rf\<lparr>Header := (Header rf)\<lparr>Players :=
            reconcile u pid (if ti smod 2 = 0 then 1 else 0) (Players (Header rf))\<rparr>\<rparr>)
            = (Some ErrMagicMismatch, rg))"
  shows "readPlayers r = Inl ErrMagicMismatch"
  using assms scan_player_failure_sites [of ra ErrMagicMismatch ti rb sk rc u rd re pid rf rg]
  by (auto simp: readPlayers_at_iteration)

theorem pattern_not_found_fatal_inside_iteration_witness:
  "readPlayers (reader_on (indicator @ le4 @ replicate 12 (CHR 0x00) @ body_string ''bob'' @
      ''zzz'') None) = Inl ErrMagicMismatch \<and>
   readPlayers (reader_on (indicator @ le4 @ replicate 12 (CHR 0x00) @ body_string ''bob'' @
      profileIDIndicator @ body_string ''p-1'' @ ''zzz'') None) = Inl ErrMagicMismatch"
proof -
  let ?t1 = "body_string ''bob'' @ ''zzz''"
  let ?r = "reader_on (indicator @ le4 @ replicate 12 (CHR 0x00) @ ?t1) None"
  let ?ra = "(reader_on (le4 @ replicate 12 (CHR 0x00) @ ?t1) None)\<lparr>offset := 6\<rparr>"
  let ?rb = "(reader_on (replicate 12 (CHR 0x00) @ ?t1) None)\<lparr>offset := 10\<rparr>"
  let ?rc = "(reader_on ?t1 None)\<lparr>offset := 22\<rparr>"
  let ?rd = "(reader_on ''zzz'' None)\<lparr>offset := 26\<rparr>"
  let ?re = "(reader_on [] None)\<lparr>offset := 29\<rparr>"
  have a: "after_records 0 ([], ?r) = Some ([], ?r)" by simp
  have b: "Seek indicator ?r = (None, ?ra)" by code_simp
  have c: "ReadInt ?ra = Inr (4, ?rb)" by code_simp
  have d: "Read 12 ?rb = Inr (replicate 12 (CHR 0x00), ?rc)" by code_simp
  have e: "ReadString ?rc = Inr (''bob'', ?rd)" by code_simp
  have f: "Seek profileIDIndicator ?rd = (Some ErrMagicMismatch, ?re)" by code_simp
  have w1: "readPlayers ?r = Inl ErrMagicMismatch"
    by (rule pattern_not_found_fatal_inside_iteration [OF _ a b c d e disjI1 [OF f]]) simp
  let ?t2 = "body_string ''bob'' @ profileIDIndicator @ body_string ''p-1'' @ ''zzz''"
  let ?s = "reader_on (indicator @ le4 @ replicate 12 (CHR 0x00) @ ?t2) None"
  let ?sa = "(reader_on (le4 @ replicate 12 (CHR 0x00) @ ?t2) None)\<lparr>offset := 6\<rparr>"
  let ?sb = "(reader_on (replicate 12 (CHR 0x00) @ ?t2) None)\<lparr>offset := 10\<rparr>"
  let ?sc = "(reader_on ?t2 None)\<lparr>offset := 22\<rparr>"
  let ?sd = "(reader_on (profileIDIndicator @ body_string ''p-1'' @ ''zzz'') None)\<lparr>offset := 26\<rparr>"
  let ?se = "(reader_on (body_string ''p-1'' @ ''zzz'') None)\<lparr>offset := 30\<rparr>"
  let ?sf = "(reader_on ''zzz'' None)\<lparr>offset := 34\<rparr>"
  let ?sg = "(reader_on [] None)\<lparr>offset := 37, Header := Header0\<lparr>Players :=
      [Player0\<lparr>ProfileID := ''p-1'', Username := ''bob'', TeamIndex := 1\<rparr>]\<rparr>\<rparr>"
  have a': "after_records 0 ([], ?s) = Some ([], ?s)" by simp
  have b': "Seek indicator ?s = (None, ?sa)" by code_simp
  have c': "ReadInt ?sa = Inr (4, ?sb)" by code_simp
  have d': "Read 12 ?sb = Inr (replicate 12 (CHR 0x00), ?sc)" by code_simp
  have e': "ReadString ?sc = Inr (''bob'', ?sd)" by code_simp
  have f': "Seek profileIDIndicator ?sd = (None, ?se) \<and> ReadString ?se = Inr (''p-1'', ?sf) \<and>
      Seek unknownIndicator (?sf\<lparr>Header := (Header ?sf)\<lparr>Players :=
        reconcile ''bob'' ''p-1'' (if (4::int) smod 2 = 0 then 1 else 0) (Players (Header ?sf))\<rparr>\<rparr>)
        = (Some ErrMagicMismatch, ?sg)" by code_simp
  have w2: "readPlayers ?s = Inl ErrMagicMismatch"
    by (rule pattern_not_found_fatal_inside_iteration [OF _ a' b' c' d' e' disjI2 [OF f']]) simp
  from w1 w2 show ?thesis by simp
qed

text \<open>
  An error of \<^verbatim>\<open>readPlayers\<close> is the error of the whole decode.
\<close>

lemma decode_returns_readPlayers_error:
  "readHeaderMagic r = Inr r1 \<Longrightarrow> readHeader tparse r1 = Inr (h, r2) \<Longrightarrow>
   readPlayers (r2\<lparr>Header := h\<rparr>) = Inl e \<Longrightarrow> decode tparse r = Inl e"
  by (simp add: decode_def)

section \<open>The player scanner: invariants of the player list\<close>

lemma enrich_found: "fst (enrich u pid t ps) = (u \<in> Username ` set ps)"
  by (induction ps) (auto split: prod.splits)

lemma enrich_usernames: "map Username (snd (enrich u pid t ps)) = map Username ps"
  by (induction ps) (auto split: prod.splits)

lemma enrich_members:
  "p \<in> set (snd (enrich u pid t ps)) \<Longrightarrow> p \<in> set ps \<or> TeamIndex p = t"
  by (induction ps) (auto split: prod.splits if_splits)

lemma reconcile_alt:
  "reconcile u pid t ps =
     (if fst (enrich u pid t ps) then snd (enrich u pid t ps)
      else snd (enrich u pid t ps) @ [Player0\<lparr>ProfileID := pid, Username := u, TeamIndex := t\<rparr>])"
  by (simp add: reconcile_def Let_def split: prod.splits)

lemma reconcile_usernames:
  "map Username (reconcile u pid t ps) =
     (if u \<in> Username ` set ps then map Username ps else map Username ps @ [u])"
  by (simp add: reconcile_alt enrich_found enrich_usernames)

lemma reconcile_members:
  "p \<in> set (reconcile u pid t ps) \<Longrightarrow> p \<in> set ps \<or> TeamIndex p = t"
  using enrich_members [of p u pid t ps]
  by (auto simp: reconcile_alt split: if_splits)

lemma readPlayers_one_bob: "readPlayers one_bob_reader = Inr scanned_reader"
  by code_simp

text \<open>
  C1 (as amended). When no two players of the list that \<^verbatim>\<open>readHeader\<close> built have the
  same username, no two players of the list have the same username after
  \<^verbatim>\<open>readPlayers\<close> has returned successfully: a scanned record with a username of the
  list enriches an entry, any other is appended once.
\<close>

theorem scanner_keeps_usernames_distinct:
  assumes "readPlayers r = Inr r'"
    and "distinct (map Username (Players (Header r)))"
  shows "distinct (map Username (Players (Header r')))"
proof -
  from assms(1) obtain uc where l: "readPlayers_loop 0 [] r = Inr (uc, r')"
    by (auto simp: readPlayers_def split: sum.splits)
  have step: "\<And>u pid t ps. t = 0 \<or> t = 1 \<Longrightarrow> distinct (map Username ps) \<Longrightarrow>
      distinct (map Username (reconcile u pid (t::int) ps))"
    by (simp add: reconcile_usernames)
  from readPlayers_loop_invariant [where P = "\<lambda>ps. distinct (map Username ps)", OF step l assms(2)]
  show ?thesis .
qed

theorem scanner_keeps_usernames_distinct_witness:
  "readPlayers one_bob_reader = Inr scanned_reader \<and>
   distinct (map Username (Players (Header scanned_reader)))"
proof -
  have d: "distinct (map Username (Players (Header one_bob_reader)))"
    by (simp add: one_bob_reader_def)
  from scanner_keeps_usernames_distinct [OF readPlayers_one_bob d] readPlayers_one_bob
  show ?thesis by simp
qed

text \<open>
  C1 as stated fails: two player records of the header with the same
  \<^verbatim>\<open>playername\<close> are two entries of the list, and the scanner, which finds a record of
  that name, enriches the first and leaves both.
\<close>

theorem header_usernames_counterexample:
  "(case decode fixed_layout_time two_bobs_input of
      Inl e \<Rightarrow> None
    | Inr h \<Rightarrow> Some (map Username (Players h), map ID (Players h))) =
   Some ([''bob'', ''bob''], [''a'', ''b''])"
  by code_simp

text \<open>
  C2 (as amended). After \<^verbatim>\<open>readPlayers\<close> has returned successfully, every entry of the
  player list is an entry that the list had before the scanner ran, unchanged, or has
  team index 0 or 1: what the scanner creates or enriches has team index 0 or 1, and an
  entry of the header that it does not touch keeps the integer of its \<^verbatim>\<open>team\<close> value.
\<close>

theorem scanner_team_index_binary:
  assumes "readPlayers r = Inr r'"
  shows "\<forall>p \<in> set (Players (Header r')).
           p \<in> set (Players (Header r)) \<or> TeamIndex p = 0 \<or> TeamIndex p = 1"
proof -
  from assms(1) obtain uc where l: "readPlayers_loop 0 [] r = Inr (uc, r')"
    by (auto simp: readPlayers_def split: sum.splits)
  let ?P = "\<lambda>ps. \<forall>p \<in> set ps. p \<in> set (Players (Header r)) \<or> TeamIndex p = 0 \<or> TeamIndex p = 1"
  have step: "\<And>u pid t ps. t = 0 \<or> t = 1 \<Longrightarrow> ?P ps \<Longrightarrow> ?P (reconcile u pid (t::int) ps)"
    using reconcile_members by blast
  have "?P (Players (Header r))" by simp
  from readPlayers_loop_invariant [where P = ?P, OF step l this]
  show ?thesis .
qed

theorem scanner_team_index_binary_witness:
  "readPlayers one_bob_reader = Inr scanned_reader \<and>
   list_all (\<lambda>p. p \<in> set (Players (Header one_bob_reader)) \<or> TeamIndex p = 0 \<or> TeamIndex p = 1)
     (Players (Header scanned_reader))"
  using scanner_team_index_binary [OF readPlayers_one_bob] readPlayers_one_bob
  by (simp add: list_all_iff)

text \<open>
  C2 as stated fails: the value of \<^verbatim>\<open>team\<close> in the header is stored as
  \<^verbatim>\<open>strconv.Atoi\<close> returns it, so a player whose \<^verbatim>\<open>team\<close> is 5 and whom the scanner
  does not find has team index 5 in the result.
\<close>

theorem header_team_index_counterexample:
  "(case decode fixed_layout_time team_five_input of
      Inl e \<Rightarrow> None
    | Inr h \<Rightarrow> Some (map Username (Players h), map TeamIndex (Players h))) =
   Some ([''bob'', ''amy''], [5, 1])"
  by code_simp

end
